theory Spec2Isabelle
  imports Main
begin

section \<open>Python values used by the scripts\<close>

text \<open>
  The scripts are Python. A Python \<open>str\<close> is modelled as a \<^typ>\<open>string\<close>; a
  \<^typ>\<open>char\<close> stands for the Unicode code point of the same number, so the model
  covers the strings whose code points are below 256. Exceptions are values of the type
  \<open>error\<close>; only the class of an exception is kept, its message is rendered by
  \<open>str_error\<close>.
\<close>

datatype error = KeyError | AttributeError | TypeError | ValueError | OSError | RequestException

definition str_error :: "error \<Rightarrow> string" where
  "str_error e =
     (case e of KeyError \<Rightarrow> ''KeyError'' | AttributeError \<Rightarrow> ''AttributeError''
      | TypeError \<Rightarrow> ''TypeError'' | ValueError \<Rightarrow> ''ValueError''
      | OSError \<Rightarrow> ''OSError'' | RequestException \<Rightarrow> ''RequestException'')"

text \<open>The data an HTTP response carries is a JSON value (floating point numbers are
  left out).\<close>

datatype json = JNull | JBool bool | JInt int | JStr string | JList "json list"
  | JDict "(string \<times> json) list"

text \<open>\<open>str.isspace\<close> on one character: the code points below 256 that Python counts
  as whitespace.\<close>

definition isspace :: "char \<Rightarrow> bool" where
  "isspace c = (of_char c \<in> {9, 10, 11, 12, 13, 28, 29, 30, 31, 32, 133, 160 :: nat})"

text \<open>\<open>str.strip()\<close>: leading and trailing whitespace removed.\<close>

definition strip :: "string \<Rightarrow> string" where
  "strip s = rev (dropWhile isspace (rev (dropWhile isspace s)))"

text \<open>
  \<open>str.isdigit\<close> on one character. Besides the decimal digits \<open>0\<close> to \<open>9\<close>
  Python counts every character with the Unicode property Numeric\_Type=Digit; below 256
  these are the superscripts two, three and one (code points 178, 179 and 185).
\<close>

definition is_decimal :: "char \<Rightarrow> bool" where
  "is_decimal c = (48 \<le> (of_char c :: nat) \<and> (of_char c :: nat) \<le> 57)"

definition isdigit_char :: "char \<Rightarrow> bool" where
  "isdigit_char c = (is_decimal c \<or> of_char c \<in> {178, 179, 185 :: nat})"

text \<open>\<open>str.isdigit()\<close>: true when the string is not empty and all its characters
  are digits.\<close>

definition isdigit :: "string \<Rightarrow> bool" where
  "isdigit s = (s \<noteq> [] \<and> list_all isdigit_char s)"

text \<open>\<open>s.replace(c, new)\<close> for a one-character \<open>c\<close>: every occurrence is replaced.\<close>

definition replace :: "char \<Rightarrow> string \<Rightarrow> string \<Rightarrow> string" where
  "replace c new s = concat (map (\<lambda>x. if x = c then new else [x]) s)"

text \<open>\<open>str(n)\<close> for a natural number, as the f-strings of the scripts print it.\<close>

definition digit_char :: "nat \<Rightarrow> char" where
  "digit_char n = char_of (48 + n)"

function str_nat :: "nat \<Rightarrow> string" where
  "str_nat n = (if n < 10 then [digit_char n] else str_nat (n div 10) @ [digit_char (n mod 10)])"
  by pat_completeness auto
termination
  by (relation "measure (\<lambda>n. n)") auto

declare str_nat.simps [simp del]

section \<open>The datetime values of the standard library\<close>

text \<open>
  \<open>datetime.fromisoformat\<close> and the comparison of two \<open>datetime\<close> objects belong
  to Python's standard library, not to the repository. They are modelled after
  \<open>Lib/datetime.py\<close> of Python 3.7 to 3.10, whose \<open>fromisoformat\<close> reads
  \<open>YYYY-MM-DD[*HH[:MM[:SS[.fff[fff]]]][+HH:MM[:SS[.ffffff]]]]\<close>. A \<open>datetime\<close> with
  \<open>tzinfo = None\<close> is naive; otherwise \<open>tzinfo\<close> holds the UTC offset in
  microseconds. The repository names no version of Python; from version 3.11 on
  \<open>fromisoformat\<close> accepts more strings (a fraction of any length, the basic format
  without separators) and rejects a date followed by a lone separator. The comparison
  is the same in all these versions.
\<close>

record datetime =
  year :: nat
  month :: nat
  day :: nat
  hour :: nat
  minute :: nat
  second :: nat
  microsecond :: nat
  tzinfo :: "int option"

definition is_leap :: "nat \<Rightarrow> bool" where
  "is_leap y = (y mod 4 = 0 \<and> (y mod 100 \<noteq> 0 \<or> y mod 400 = 0))"

definition days_in_month :: "nat \<Rightarrow> nat \<Rightarrow> nat" where
  "days_in_month y m =
     (if m = 2 \<and> is_leap y then 29
      else [0, 31, 28, 31, 30, 31, 30, 31, 31, 30, 31, 30, 31] ! m)"

definition days_before_year :: "nat \<Rightarrow> nat" where
  "days_before_year y = (y - 1) * 365 + (y - 1) div 4 - (y - 1) div 100 + (y - 1) div 400"

definition days_before_month :: "nat \<Rightarrow> nat \<Rightarrow> nat" where
  "days_before_month y m =
     [0, 0, 31, 59, 90, 120, 151, 181, 212, 243, 273, 304, 334] ! m
       + (if m > 2 \<and> is_leap y then 1 else 0)"

definition ymd2ord :: "nat \<Rightarrow> nat \<Rightarrow> nat \<Rightarrow> nat" where
  "ymd2ord y m d = days_before_year y + days_before_month y m + d"

text \<open>The checks of the \<open>datetime\<close> constructor: a field out of range raises
  \<open>ValueError\<close>. A \<open>timezone\<close> offset must be strictly between -24 and 24 hours.\<close>

definition check_fields :: "datetime \<Rightarrow> bool" where
  "check_fields d =
     (1 \<le> year d \<and> year d \<le> 9999 \<and> 1 \<le> month d \<and> month d \<le> 12
      \<and> 1 \<le> day d \<and> day d \<le> days_in_month (year d) (month d)
      \<and> hour d < 24 \<and> minute d < 60 \<and> second d < 60 \<and> microsecond d < 1000000
      \<and> (case tzinfo d of None \<Rightarrow> True
          | Some off \<Rightarrow> - 86400000000 < off \<and> off < 86400000000))"

text \<open>A run of decimal digits read as a number; \<open>None\<close> stands for the
  \<open>ValueError\<close> of a malformed field.\<close>

definition parse_digits :: "string \<Rightarrow> nat option" where
  "parse_digits s =
     (if s \<noteq> [] \<and> list_all is_decimal s
      then Some (foldl (\<lambda>n c. 10 * n + (of_char c - 48)) 0 s) else None)"

definition parse_isoformat_date :: "string \<Rightarrow> (nat \<times> nat \<times> nat) option" where
  "parse_isoformat_date dtstr =
     (if length dtstr \<noteq> 10 \<or> dtstr ! 4 \<noteq> CHR ''-'' \<or> dtstr ! 7 \<noteq> CHR ''-'' then None
      else case (parse_digits (take 4 dtstr), parse_digits (take 2 (drop 5 dtstr)),
                 parse_digits (take 2 (drop 8 dtstr))) of
             (Some y, Some m, Some d) \<Rightarrow> Some (y, m, d)
           | _ \<Rightarrow> None)"

text \<open>The fraction after the seconds: exactly three or six digits.\<close>

definition parse_fraction :: "string \<Rightarrow> nat option" where
  "parse_fraction s =
     (if s = [] then Some 0
      else if hd s \<noteq> CHR ''.'' then None
      else if length (tl s) = 3 then map_option (\<lambda>n. n * 1000) (parse_digits (tl s))
      else if length (tl s) = 6 then parse_digits (tl s)
      else None)"

text \<open>\<open>HH[:MM[:SS[.fff[fff]]]]\<close>, as \<open>_parse_hh_mm_ss_ff\<close> reads it.\<close>

definition parse_hh_mm_ss_ff :: "string \<Rightarrow> (nat \<times> nat \<times> nat \<times> nat) option" where
  "parse_hh_mm_ss_ff tstr =
     (if length tstr < 2 then None
      else (case parse_digits (take 2 tstr) of None \<Rightarrow> None
      | Some h \<Rightarrow>
          (let r1 = drop 2 tstr in
           if r1 = [] then Some (h, 0, 0, 0)
           else if hd r1 \<noteq> CHR '':'' \<or> length (tl r1) < 2 then None
           else (case parse_digits (take 2 (tl r1)) of None \<Rightarrow> None
           | Some mi \<Rightarrow>
               (let r2 = drop 2 (tl r1) in
                if r2 = [] then Some (h, mi, 0, 0)
                else if hd r2 \<noteq> CHR '':'' \<or> length (tl r2) < 2 then None
                else (case parse_digits (take 2 (tl r2)) of None \<Rightarrow> None
                | Some s \<Rightarrow>
                    (case parse_fraction (drop 2 (tl r2)) of None \<Rightarrow> None
                     | Some us \<Rightarrow> Some (h, mi, s, us))))))))"

text \<open>The position of the UTC offset in the time string: the first \<open>-\<close>, or else the
  first \<open>+\<close> (\<open>tstr.find('-') + 1 or tstr.find('+') + 1\<close>).\<close>

definition find_char :: "char \<Rightarrow> string \<Rightarrow> nat option" where
  "find_char c s = (if c \<in> set s then Some (length (takeWhile (\<lambda>x. x \<noteq> c) s)) else None)"

definition tz_pos :: "string \<Rightarrow> nat option" where
  "tz_pos tstr =
     (case find_char (CHR ''-'') tstr of Some i \<Rightarrow> Some i
      | None \<Rightarrow> find_char (CHR ''+'') tstr)"

definition parse_tz :: "char \<Rightarrow> string \<Rightarrow> int option" where
  "parse_tz sign tzstr =
     (if length tzstr \<notin> {5, 8, 15} then None
      else (case parse_hh_mm_ss_ff tzstr of None \<Rightarrow> None
      | Some (h, mi, s, us) \<Rightarrow>
          Some ((if sign = CHR ''-'' then - 1 else 1)
                * (int (h * 3600 + mi * 60 + s) * 1000000 + int us))))"

definition parse_isoformat_time ::
  "string \<Rightarrow> ((nat \<times> nat \<times> nat \<times> nat) \<times> int option) option" where
  "parse_isoformat_time tstr =
     (if length tstr < 2 then None
      else case tz_pos tstr of
        None \<Rightarrow>
          (case parse_hh_mm_ss_ff tstr of None \<Rightarrow> None | Some t \<Rightarrow> Some (t, None))
      | Some i \<Rightarrow>
          (case (parse_hh_mm_ss_ff (take i tstr), parse_tz (tstr ! i) (drop (Suc i) tstr)) of
             (Some t, Some off) \<Rightarrow> Some (t, Some off)
           | _ \<Rightarrow> None))"

text \<open>\<open>datetime.fromisoformat\<close>; \<open>None\<close> stands for the exception it raises on a
  string it does not accept. The character at index 10 separates date and time and may be
  any character.\<close>

definition fromisoformat :: "string \<Rightarrow> datetime option" where
  "fromisoformat date_string =
     (case parse_isoformat_date (take 10 date_string) of None \<Rightarrow> None
      | Some (y, m, d) \<Rightarrow>
          (case (if drop 11 date_string = [] then Some ((0, 0, 0, 0), None)
                 else parse_isoformat_time (drop 11 date_string)) of
             None \<Rightarrow> None
           | Some ((h, mi, s, us), tz) \<Rightarrow>
               (let dt = \<lparr>year = y, month = m, day = d, hour = h, minute = mi, second = s,
                          microsecond = us, tzinfo = tz\<rparr>
                in if check_fields dt then Some dt else None)))"

text \<open>
  The comparison \<open>datetime._cmp\<close>. Datetimes with the same offset (or both naive)
  are compared field by field; a naive and an aware datetime cannot be compared
  (\<open>TypeError\<close>); two aware datetimes with different offsets are compared through
  their difference, which takes the offsets into account.
\<close>

fun cmp_fields :: "nat list \<Rightarrow> nat list \<Rightarrow> int" where
  "cmp_fields (x # xs) (y # ys) = (if x < y then - 1 else if y < x then 1 else cmp_fields xs ys)"
| "cmp_fields _ _ = 0"

definition field_list :: "datetime \<Rightarrow> nat list" where
  "field_list d = [year d, month d, day d, hour d, minute d, second d, microsecond d]"

text \<open>The microseconds from the start of day 0 to the naive reading of a datetime, and
  the same with the UTC offset subtracted (a naive datetime counted as UTC).\<close>

definition naive_micros :: "datetime \<Rightarrow> int" where
  "naive_micros d =
     (int (ymd2ord (year d) (month d) (day d)) * 86400
        + int (hour d * 3600 + minute d * 60 + second d)) * 1000000 + int (microsecond d)"

definition utc_micros :: "datetime \<Rightarrow> int" where
  "utc_micros d = naive_micros d - (case tzinfo d of None \<Rightarrow> 0 | Some off \<Rightarrow> off)"

definition datetime_cmp :: "datetime \<Rightarrow> datetime \<Rightarrow> error + int" where
  "datetime_cmp self other =
     (if tzinfo self = tzinfo other then Inr (cmp_fields (field_list self) (field_list other))
      else if tzinfo self = None \<or> tzinfo other = None then Inl TypeError
      else (let diff = utc_micros self - utc_micros other
            in Inr (if diff < 0 then - 1 else if diff \<noteq> 0 then 1 else 0)))"

definition datetime_gt :: "datetime \<Rightarrow> datetime \<Rightarrow> error + bool" where
  "datetime_gt self other = map_sum id (\<lambda>c. c > 0) (datetime_cmp self other)"

section \<open>The world the scripts run in\<close>

text \<open>
  The scripts read and write files, print log lines and send HTTP requests. The state
  they act on is a record: the file system, a map from paths to nodes; the lines
  printed so far, each with its level; and the arguments of the calls of
  \<open>requests.get\<close> so far. A path is the list
  of its components; \<open>Path(data_folder) / "panels" / panel_id\<close> appends components,
  which is what \<open>pathlib\<close> does for a \<open>panel_id\<close> that is one path component (the
  catalog loader only lets such ids through). A node is a directory, a regular file
  with its text, or a file that can be neither read nor written (\<open>Locked\<close>:
  permission denied, I/O error).

  Some paths the operating system refuses to look at: \<open>os.stat\<close> on them fails with
  an error other than ``no such file or directory'', because a directory above the path
  may not be searched (\<open>PermissionError\<close>) or because a component is longer than the
  file system allows (\<open>OSError\<close> 36 for a name of more than 255 bytes). The field
  \<open>stat_error\<close> holds these paths; every system call on one of them raises
  \<open>OSError\<close>, and nothing the scripts do changes the field.
\<close>

datatype level = INFO | WARNING | ERROR | SUCCESS

type_synonym path = "string list"

datatype node = Dir | File string | Locked

record world =
  fs :: "path \<rightharpoonup> node"
  stat_error :: "path \<Rightarrow> bool"
  console :: "(level \<times> string) list"
  sent :: "json list"

text \<open>\<open>log_message\<close> prints one line; the time stamp and the colour codes of the line
  are left out.\<close>

definition log_message :: "string \<Rightarrow> level \<Rightarrow> world \<Rightarrow> world" where
  "log_message message lvl w = w\<lparr>console := console w @ [(lvl, message)]\<rparr>"

text \<open>\<open>Path.exists()\<close> calls \<open>os.stat\<close> and answers false for the errors
  \<open>ENOENT\<close>, \<open>ENOTDIR\<close>, \<open>EBADF\<close> and \<open>ELOOP\<close> only; every other
  \<open>OSError\<close> of the call is raised again (\<open>Lib/pathlib.py\<close> of Python 3.7 to
  3.12).\<close>

definition path_exists :: "world \<Rightarrow> path \<Rightarrow> error + bool" where
  "path_exists w p = (if stat_error w p then Inl OSError else Inr (fs w p \<noteq> None))"

text \<open>\<open>os.path.exists\<close>, which \<open>main\<close> calls on the data folder, answers false
  for every \<open>OSError\<close> of \<open>os.stat\<close>.\<close>

definition os_path_exists :: "world \<Rightarrow> path \<Rightarrow> bool" where
  "os_path_exists w p = (\<not> stat_error w p \<and> fs w p \<noteq> None)"

text \<open>Reading in text mode translates a carriage return, with or without a line feed
  after it, to a line feed (universal newlines, the default of \<open>open\<close>).\<close>

fun universal_newlines :: "string \<Rightarrow> string" where
  "universal_newlines [] = []"
| "universal_newlines [c] = [if c = CHR 0x0D then CHR 0x0A else c]"
| "universal_newlines (c # d # cs) =
     (if c = CHR 0x0D then
        (if d = CHR 0x0A then CHR 0x0A # universal_newlines cs
         else CHR 0x0A # universal_newlines (d # cs))
      else c # universal_newlines (d # cs))"

text \<open>\<open>open(p, 'r').read()\<close>: only a regular, readable file can be read.\<close>

definition read_text :: "world \<Rightarrow> path \<Rightarrow> error + string" where
  "read_text w p =
     (if stat_error w p then Inl OSError
      else (case fs w p of Some (File s) \<Rightarrow> Inr (universal_newlines s) | _ \<Rightarrow> Inl OSError))"

text \<open>\<open>Path.mkdir(parents=True, exist_ok=True)\<close>: every missing ancestor is created,
  an existing directory is accepted, a file in the way raises, and so does a path the
  operating system refuses; \<open>refused\<close> is the field \<open>stat_error\<close> of the world.\<close>

fun mkdir_parents ::
  "(path \<Rightarrow> bool) \<Rightarrow> path \<Rightarrow> path \<Rightarrow> (path \<rightharpoonup> node) \<Rightarrow> error + (path \<rightharpoonup> node)" where
  "mkdir_parents refused pre [] m = Inr m"
| "mkdir_parents refused pre (c # cs) m =
     (if refused (pre @ [c]) then Inl OSError
      else (case m (pre @ [c]) of
        None \<Rightarrow> mkdir_parents refused (pre @ [c]) cs (m(pre @ [c] \<mapsto> Dir))
      | Some Dir \<Rightarrow> mkdir_parents refused (pre @ [c]) cs m
      | Some _ \<Rightarrow> Inl OSError))"

definition mkdir :: "path \<Rightarrow> world \<Rightarrow> error + world" where
  "mkdir p w =
     (case mkdir_parents (stat_error w) [] p (fs w) of
        Inl e \<Rightarrow> Inl e
      | Inr m \<Rightarrow> Inr (w\<lparr>fs := m\<rparr>))"

text \<open>\<open>open(p, 'w')\<close> followed by \<open>write(s)\<close>: the parent must be a directory (the
  root, the empty path, is one), the file is created or truncated; a directory or a
  locked file at \<open>p\<close> raises, and so does a path the operating system refuses.\<close>

definition write_text :: "path \<Rightarrow> string \<Rightarrow> world \<Rightarrow> error + world" where
  "write_text p s w =
     (if stat_error w p \<or> p = [] \<or> \<not> (butlast p = [] \<or> fs w (butlast p) = Some Dir)
      then Inl OSError
      else (case fs w p of
        Some Dir \<Rightarrow> Inl OSError
      | Some Locked \<Rightarrow> Inl OSError
      | _ \<Rightarrow> Inr (w\<lparr>fs := (fs w)(p \<mapsto> File s)\<rparr>)))"

section \<open>extract\_genes\_incremental.py\<close>

text \<open>A panel is a Python dictionary from field names to strings.\<close>

type_synonym panel = "string \<rightharpoonup> string"

definition version_file_of :: "path \<Rightarrow> string \<Rightarrow> path" where
  "version_file_of data_folder panel_id =
     data_folder @ [''panels'', panel_id, ''version_created.txt'']"

subsection \<open>update\_panel\_version\_tracking\<close>

definition update_panel_version_tracking ::
  "path \<Rightarrow> panel \<Rightarrow> world \<Rightarrow> (error + unit) \<times> world" where
  "update_panel_version_tracking data_folder panel w =
     (case panel ''id'' of None \<Rightarrow> (Inl KeyError, w)
      | Some panel_id \<Rightarrow>
     (case panel ''version_created'' of None \<Rightarrow> (Inl KeyError, w)
      | Some version_created \<Rightarrow>
     (case mkdir (data_folder @ [''panels'', panel_id]) w of Inl e \<Rightarrow> (Inl e, w)
      | Inr w1 \<Rightarrow>
     (case write_text (version_file_of data_folder panel_id) version_created w1 of
        Inl e \<Rightarrow> (Inl e, w1)
      | Inr w2 \<Rightarrow>
          (Inr (), log_message (''Updated version tracking for panel '' @ panel_id @ '' to ''
                                  @ version_created) INFO w2)))))"

subsection \<open>read\_panel\_data\<close>

text \<open>
  \<open>csv.DictReader\<close> yields one dictionary per row of the file. A field of a row that
  is shorter than the header is \<open>None\<close>; a column the header does not have is no key
  of the dictionary. The reader itself is a parameter of the model.
\<close>

datatype pyval = PyNone | PyStr string

type_synonym row = "string \<rightharpoonup> pyval"

definition row_get :: "row \<Rightarrow> string \<Rightarrow> string \<Rightarrow> pyval" where
  "row_get r key dflt = (case r key of None \<Rightarrow> PyStr dflt | Some v \<Rightarrow> v)"

text \<open>\<open>.strip()\<close> on a field: \<open>None\<close> has no such method.\<close>

definition py_strip :: "pyval \<Rightarrow> error + string" where
  "py_strip v = (case v of PyStr s \<Rightarrow> Inr (strip s) | PyNone \<Rightarrow> Inl AttributeError)"

text \<open>The dictionary built at lines 98 to 103; a field that is \<open>None\<close> raises.\<close>

definition build_panel :: "string \<Rightarrow> row \<Rightarrow> error + panel" where
  "build_panel panel_id r =
     (case py_strip (row_get r ''name'' ''Unknown'') of Inl e \<Rightarrow> Inl e
      | Inr name \<Rightarrow>
     (case py_strip (row_get r ''version'' ''Unknown'') of Inl e \<Rightarrow> Inl e
      | Inr version \<Rightarrow>
     (case py_strip (row_get r ''version_created'' []) of Inl e \<Rightarrow> Inl e
      | Inr version_created \<Rightarrow>
          Inr [''id'' \<mapsto> panel_id, ''name'' \<mapsto> name, ''version'' \<mapsto> version,
               ''version_created'' \<mapsto> version_created])))"

text \<open>The statements inside the \<open>try\<close> of the loop over the rows (lines 96 to 106):
  the panels so far, with the panel of this row appended if it has a valid id, and the
  warning to print for an invalid one.\<close>

definition parse_row :: "nat \<Rightarrow> row \<Rightarrow> panel list \<Rightarrow> world \<Rightarrow> error + (panel list \<times> world)" where
  "parse_row row_num r panels w =
     (case py_strip (row_get r ''id'' []) of Inl e \<Rightarrow> Inl e
      | Inr panel_id \<Rightarrow>
          if panel_id \<noteq> [] \<and> isdigit panel_id then
            (case build_panel panel_id r of Inl e \<Rightarrow> Inl e
             | Inr panel \<Rightarrow> Inr (panels @ [panel], w))
          else if panel_id \<noteq> [] then
            Inr (panels, log_message (''Invalid panel ID on line '' @ str_nat row_num @ '': ''
                                       @ panel_id) WARNING w)
          else Inr (panels, w))"

text \<open>One turn of the loop: the \<open>except\<close> of line 107 prints a warning and goes on
  with the next row.\<close>

definition read_row :: "nat \<Rightarrow> row \<Rightarrow> panel list \<Rightarrow> world \<Rightarrow> panel list \<times> world" where
  "read_row row_num r panels w =
     (case parse_row row_num r panels w of
        Inr res \<Rightarrow> res
      | Inl e \<Rightarrow> (panels, log_message (''Error parsing line '' @ str_nat row_num @ '': ''
                                         @ str_error e) WARNING w))"

fun read_rows :: "nat \<Rightarrow> row list \<Rightarrow> panel list \<Rightarrow> world \<Rightarrow> panel list \<times> world" where
  "read_rows row_num [] panels w = (panels, w)"
| "read_rows row_num (r # rs) panels w =
     (case read_row row_num r panels w of
        (panels', w') \<Rightarrow> read_rows (Suc row_num) rs panels' w')"

definition str_path :: "path \<Rightarrow> string" where
  "str_path p = concat (map (\<lambda>c. CHR ''/'' # c) p)"

text \<open>The test \<open>tsv_file.exists()\<close> of line 85 stands before the \<open>try\<close> of line
  90: an exception of the test leaves the function, an exception of the read is caught
  at line 110 and gives the empty list.\<close>

definition read_panel_data ::
  "(string \<Rightarrow> row list) \<Rightarrow> path \<Rightarrow> world \<Rightarrow> (error + panel list) \<times> world" where
  "read_panel_data reader data_folder w =
     (let tsv_file = data_folder @ [''panel_list.tsv''] in
      case path_exists w tsv_file of
        Inl e \<Rightarrow> (Inl e, w)
      | Inr False \<Rightarrow>
          (Inr [], log_message (''Panel list file not found: '' @ str_path tsv_file) ERROR w)
      | Inr True \<Rightarrow>
      (case read_text w tsv_file of
        Inl e \<Rightarrow>
          (Inr [], log_message (''Error reading panel list file: '' @ str_error e) ERROR w)
      | Inr content \<Rightarrow>
          (case read_rows 2 (reader content) [] w of
             (panels, w') \<Rightarrow>
               (Inr panels, log_message (''Found '' @ str_nat (length panels)
                                          @ '' panels in panel list'') INFO w'))))"

subsection \<open>panel\_needs\_update\<close>

text \<open>Lines 133 and 134 read the stored marker: the text of the file, stripped.\<close>

definition read_version_file :: "world \<Rightarrow> path \<Rightarrow> error + string" where
  "read_version_file w version_file = map_sum id strip (read_text w version_file)"

text \<open>The statements inside the \<open>try\<close> of \<open>panel_needs_update\<close> (lines 133 to
  149).\<close>

definition check_version ::
  "string \<Rightarrow> string \<Rightarrow> path \<Rightarrow> world \<Rightarrow> error + (bool \<times> world)" where
  "check_version panel_id current_version_created version_file w =
     (case read_version_file w version_file of Inl e \<Rightarrow> Inl e
      | Inr last_version_created \<Rightarrow>
          if last_version_created = [] then
            Inr (True, log_message (''Panel '' @ panel_id
                                     @ '' has empty version file, will download'') INFO w)
          else
            (case fromisoformat (replace (CHR ''Z'') ''+00:00'' current_version_created) of
               None \<Rightarrow> Inl ValueError
             | Some current_date \<Rightarrow>
            (case fromisoformat (replace (CHR ''Z'') ''+00:00'' last_version_created) of
               None \<Rightarrow> Inl ValueError
             | Some last_date \<Rightarrow>
            (case datetime_gt current_date last_date of
               Inl e \<Rightarrow> Inl e
             | Inr gt \<Rightarrow>
                 if gt then
                   Inr (True, log_message (''Panel '' @ panel_id @ '' has been updated (''
                          @ last_version_created @ '' -> '' @ current_version_created @ '')'')
                          INFO w)
                 else
                   Inr (False, log_message (''Panel '' @ panel_id @ '' is up to date (''
                          @ current_version_created @ '')'') INFO w)))))"

definition panel_needs_update ::
  "panel \<Rightarrow> path \<Rightarrow> bool \<Rightarrow> world \<Rightarrow> (error + bool) \<times> world" where
  "panel_needs_update panel data_folder force w =
     (if force then (Inr True, w)
      else (case panel ''id'' of None \<Rightarrow> (Inl KeyError, w)
      | Some panel_id \<Rightarrow>
     (case panel ''version_created'' of None \<Rightarrow> (Inl KeyError, w)
      | Some current_version_created \<Rightarrow>
          (case path_exists w (version_file_of data_folder panel_id) of
             Inl e \<Rightarrow> (Inl e, w)
           | Inr False \<Rightarrow>
               (Inr True, log_message (''Panel '' @ panel_id
                            @ '' has no version tracking file, will download'') INFO w)
           | Inr True \<Rightarrow>
            (case check_version panel_id current_version_created
                    (version_file_of data_folder panel_id) w of
               Inr (b, w') \<Rightarrow> (Inr b, w')
             | Inl e \<Rightarrow>
                 (Inr True, log_message (''Error reading/parsing version file for panel ''
                              @ panel_id @ '', will download: '' @ str_error e) WARNING w))))))"

text \<open>The list comprehension of \<open>main\<close> (lines 255 to 258) that keeps the panels
  needing an update.\<close>

fun panels_to_update ::
  "panel list \<Rightarrow> path \<Rightarrow> bool \<Rightarrow> world \<Rightarrow> (error + panel list) \<times> world" where
  "panels_to_update [] data_folder force w = (Inr [], w)"
| "panels_to_update (panel # panels) data_folder force w =
     (case panel_needs_update panel data_folder force w of
        (Inl e, w') \<Rightarrow> (Inl e, w')
      | (Inr b, w') \<Rightarrow>
          (case panels_to_update panels data_folder force w' of
             (Inl e, w'') \<Rightarrow> (Inl e, w'')
           | (Inr rest, w'') \<Rightarrow> (Inr (if b then panel # rest else rest), w'')))"

subsection \<open>download\_panel\_genes\<close>

text \<open>
  The network, the JSON printer and \<open>str()\<close> on a JSON value belong to the
  environment: \<open>http_get env n url\<close> is what \<open>requests.get(url)\<close>,
  \<open>raise_for_status()\<close> and \<open>json()\<close> give for the request number \<open>n\<close> of the
  run, an exception or the decoded data; a server may answer the same URL differently
  each time. \<open>csv_reader\<close> is \<open>csv.DictReader\<close> with the tabulator as delimiter.
\<close>

record env =
  http_get :: "nat \<Rightarrow> string \<Rightarrow> error + json"
  json_dumps :: "json \<Rightarrow> string"
  py_str :: "json \<Rightarrow> string"
  csv_reader :: "string \<Rightarrow> row list"

text \<open>The truth value of a Python object in a condition.\<close>

definition py_truthy :: "json \<Rightarrow> bool" where
  "py_truthy v =
     (case v of JNull \<Rightarrow> False | JBool b \<Rightarrow> b | JInt n \<Rightarrow> n \<noteq> 0 | JStr s \<Rightarrow> s \<noteq> []
      | JList l \<Rightarrow> l \<noteq> [] | JDict d \<Rightarrow> d \<noteq> [])"

text \<open>\<open>data.get(key, dflt)\<close>: only a dictionary has the method.\<close>

definition dict_get :: "json \<Rightarrow> string \<Rightarrow> json \<Rightarrow> error + json" where
  "dict_get data key dflt =
     (case data of
        JDict kvs \<Rightarrow> Inr (case map_of kvs key of None \<Rightarrow> dflt | Some v \<Rightarrow> v)
      | _ \<Rightarrow> Inl AttributeError)"

definition py_len :: "json \<Rightarrow> error + nat" where
  "py_len v =
     (case v of JStr s \<Rightarrow> Inr (length s) | JList l \<Rightarrow> Inr (length l)
      | JDict d \<Rightarrow> Inr (length d) | _ \<Rightarrow> Inl TypeError)"

text \<open>\<open>requests.get(next_url, timeout=30)\<close> with the two calls that follow it. A value
  that is not a string is no URL and raises.\<close>

definition requests_get :: "env \<Rightarrow> json \<Rightarrow> world \<Rightarrow> (error + json) \<times> world" where
  "requests_get env url w =
     (case url of
        JStr u \<Rightarrow> (http_get env (length (sent w)) u, w\<lparr>sent := sent w @ [url]\<rparr>)
      | _ \<Rightarrow> (Inl RequestException, w\<lparr>sent := sent w @ [url]\<rparr>))"

text \<open>One turn of the \<open>while\<close> loop of \<open>download_panel_genes\<close> (lines 172 to
  187): the page is requested, saved and logged; the result is the next URL the page
  names, or the exception raised.\<close>

definition fetch_genes_page ::
  "env \<Rightarrow> path \<Rightarrow> string \<Rightarrow> nat \<Rightarrow> json \<Rightarrow> world \<Rightarrow> (error + json) \<times> world" where
  "fetch_genes_page env panel_dir panel_id page next_url w =
     (case requests_get env next_url
             (log_message (''  Downloading genes page '' @ str_nat page @ '' for panel ''
                            @ panel_id @ ''...'') INFO w) of
        (Inl e, w2) \<Rightarrow> (Inl e, w2)
      | (Inr data, w2) \<Rightarrow>
     (case write_text (panel_dir @ [''genes_page_'' @ str_nat page @ ''.json''])
             (json_dumps env data) w2 of
        Inl e \<Rightarrow> (Inl e, w2)
      | Inr w3 \<Rightarrow>
     (case dict_get data ''count'' (JInt 0) of Inl e \<Rightarrow> (Inl e, w3)
      | Inr count \<Rightarrow>
     (case dict_get data ''next'' JNull of Inl e \<Rightarrow> (Inl e, w3)
      | Inr next_url' \<Rightarrow>
     (case dict_get data ''results'' (JList []) of Inl e \<Rightarrow> (Inl e, w3)
      | Inr results \<Rightarrow>
     (case py_len results of Inl e \<Rightarrow> (Inl e, w3)
      | Inr results_count \<Rightarrow>
          (Inr next_url',
           log_message (''    Page '' @ str_nat page @ '' downloaded: ''
             @ str_nat results_count @ '' genes (Total: '' @ py_str env count @ '')'')
             INFO w3)))))))"

text \<open>The \<open>while\<close> loop of lines 171 to 194, with its safety check. The result is
  the value of \<open>page\<close> when the loop is left, or the exception that ended it.\<close>

function genes_loop ::
  "env \<Rightarrow> path \<Rightarrow> string \<Rightarrow> nat \<Rightarrow> json \<Rightarrow> world \<Rightarrow> (error + nat) \<times> world" where
  "genes_loop env panel_dir panel_id page next_url w =
     (if py_truthy next_url \<and> next_url \<noteq> JStr ''null'' then
        (case fetch_genes_page env panel_dir panel_id page next_url w of
           (Inl e, w1) \<Rightarrow> (Inl e, w1)
         | (Inr next_url', w1) \<Rightarrow>
             if Suc page > 100 then
               (Inr (Suc page),
                log_message (''Safety limit reached (100 pages) for panel '' @ panel_id)
                  WARNING w1)
             else genes_loop env panel_dir panel_id (Suc page) next_url' w1)
      else (Inr page, w))"
  by pat_completeness auto
termination
  by (relation "measure (\<lambda>(env, panel_dir, panel_id, page, next_url, w). 100 - page)") auto

declare genes_loop.simps [simp del]

text \<open>The dictionary \<open>download_panel_genes\<close> returns; the extraction date, read from
  the clock, is left out.\<close>

datatype download_result =
  Downloaded string string nat
  | Failed string string

definition success :: "download_result \<Rightarrow> bool" where
  "success r = (case r of Downloaded i v n \<Rightarrow> True | Failed i e \<Rightarrow> False)"

definition gene_url :: "string \<Rightarrow> string" where
  "gene_url panel_id = ''https://panelapp-aus.org/api'' @ ''/'' @ ''v1'' @ ''/panels/'' @ panel_id @ ''/genes/''"

definition download_panel_genes ::
  "env \<Rightarrow> path \<Rightarrow> panel \<Rightarrow> world \<Rightarrow> (error + download_result) \<times> world" where
  "download_panel_genes env data_folder panel w =
     (case panel ''id'' of None \<Rightarrow> (Inl KeyError, w)
      | Some panel_id \<Rightarrow>
     (case panel ''name'' of None \<Rightarrow> (Inl KeyError, w)
      | Some panel_name \<Rightarrow>
     (case mkdir (data_folder @ [''panels'', panel_id, ''genes'', ''json''])
             (log_message (''Extracting genes for panel '' @ panel_id @ '' ('' @ panel_name
                            @ '')...'') INFO w) of
        Inl e \<Rightarrow>
          (Inl e, log_message (''Extracting genes for panel '' @ panel_id @ '' ('' @ panel_name
                                @ '')...'') INFO w)
      | Inr w1 \<Rightarrow>
     (case genes_loop env (data_folder @ [''panels'', panel_id, ''genes'', ''json'']) panel_id 1
             (JStr (gene_url panel_id)) w1 of
        (Inl e, w2) \<Rightarrow>
          (Inr (Failed panel_id (str_error e)),
           log_message (''Error downloading genes for panel '' @ panel_id @ '': '' @ str_error e)
             ERROR w2)
      | (Inr page, w2) \<Rightarrow>
          (case panel ''version_created'' of
             None \<Rightarrow>
               (Inr (Failed panel_id (str_error KeyError)),
                log_message (''Error downloading genes for panel '' @ panel_id @ '': ''
                              @ str_error KeyError) ERROR
                  (log_message (''Completed gene extraction for panel '' @ panel_id @ '' (''
                     @ str_nat (page - 1) @ '' pages)'') SUCCESS w2))
           | Some version_created \<Rightarrow>
               (Inr (Downloaded panel_id version_created (page - 1)),
                log_message (''Completed gene extraction for panel '' @ panel_id @ '' (''
                  @ str_nat (page - 1) @ '' pages)'') SUCCESS w2))))))"

subsection \<open>main\<close>

text \<open>The loop of lines 270 to 278 over the panels to update, with its two counters.\<close>

fun process_panels ::
  "env \<Rightarrow> path \<Rightarrow> panel list \<Rightarrow> nat \<times> nat \<Rightarrow> world \<Rightarrow> (error + nat \<times> nat) \<times> world" where
  "process_panels env data_folder [] counts w = (Inr counts, w)"
| "process_panels env data_folder (panel # panels) counts w =
     (case download_panel_genes env data_folder panel w of
        (Inl e, w1) \<Rightarrow> (Inl e, w1)
      | (Inr result, w1) \<Rightarrow>
          if success result then
            (case update_panel_version_tracking data_folder panel w1 of
               (Inl e, w2) \<Rightarrow> (Inl e, w2)
             | (Inr u, w2) \<Rightarrow>
                 process_panels env data_folder panels (Suc (fst counts), snd counts) w2)
          else process_panels env data_folder panels (fst counts, Suc (snd counts)) w1)"

text \<open>The lines the script prints after the loop (lines 280 to 285).\<close>

definition report :: "path \<Rightarrow> nat \<times> nat \<Rightarrow> world \<Rightarrow> world" where
  "report data_folder counts w =
     log_message ''Version tracking files updated in individual panel directories'' INFO
       (log_message (''Output directory: '' @ str_path data_folder) INFO
          ((if snd counts > 0
            then log_message ''Some panels failed. Check logs for details.'' WARNING
            else (\<lambda>w. w))
             (log_message (''Incremental gene extraction completed: '' @ str_nat (fst counts)
                @ '' successful, '' @ str_nat (snd counts) @ '' failed'') SUCCESS w)))"

text \<open>\<open>main\<close>, from the parsed arguments on; the result is the exit status of the
  script. \<open>sys.exit\<close> is not caught by the \<open>except Exception\<close> of line 287.\<close>

definition main :: "env \<Rightarrow> path \<Rightarrow> bool \<Rightarrow> world \<Rightarrow> nat \<times> world" where
  "main env data_path force w =
     (let w0 = log_message ''Starting PanelApp Australia incremental gene extraction...'' INFO w in
      if \<not> os_path_exists w0 data_path then
        (1, log_message (''Data path does not exist: '' @ str_path data_path) ERROR w0)
      else
        (case read_panel_data (csv_reader env) data_path
                (log_message (''Using data folder: '' @ str_path data_path) INFO w0) of
           (Inl e, w1) \<Rightarrow>
             (1, log_message (''Script execution failed: '' @ str_error e) ERROR w1)
         | (Inr panels, w1) \<Rightarrow>
             if panels = [] then (1, log_message ''No panels found to process'' ERROR w1)
             else
               (case panels_to_update panels data_path force w1 of
                  (Inl e, w2) \<Rightarrow>
                    (1, log_message (''Script execution failed: '' @ str_error e) ERROR w2)
                | (Inr to_update, w2) \<Rightarrow>
                    if to_update = [] then
                      (0, log_message ''All panels are up to date. No downloads needed.'' SUCCESS w2)
                    else
                      (case process_panels env data_path to_update (0, 0)
                              (log_message (''Will download genes for ''
                                 @ str_nat (length to_update) @ '' panels (out of ''
                                 @ str_nat (length panels) @ '' total)'') INFO w2) of
                         (Inl e, w3) \<Rightarrow>
                           (1, log_message (''Script execution failed: '' @ str_error e) ERROR w3)
                       | (Inr counts, w3) \<Rightarrow> (0, report data_path counts w3)))))"

section \<open>extract\_panel\_list.py\<close>

text \<open>One turn of the \<open>while\<close> loop of \<open>PanelAppExtractor.download_panels\<close>
  (lines 95 to 119); the logger prints to the same console. \<open>response.json()\<close>
  raises \<open>ValueError\<close> on a body that is not JSON, which is logged and raised
  again.\<close>

definition fetch_panels_page ::
  "env \<Rightarrow> path \<Rightarrow> nat \<Rightarrow> json \<Rightarrow> world \<Rightarrow> (error + json) \<times> world" where
  "fetch_panels_page env output_dir page next_url w =
     (case requests_get env next_url
             (log_message (''Downloading page '' @ str_nat page @ ''...'') INFO w) of
        (Inl e, w2) \<Rightarrow>
          (Inl e,
           if e = ValueError
           then log_message (''Invalid JSON received for page '' @ str_nat page @ '': ''
                              @ str_error e) ERROR w2
           else w2)
      | (Inr data, w2) \<Rightarrow>
     (case write_text (output_dir @ [''panel_list'', ''json'',
                                     ''panels_page_'' @ str_nat page @ ''.json''])
             (json_dumps env data) w2 of
        Inl e \<Rightarrow> (Inl e, w2)
      | Inr w3 \<Rightarrow>
     (case dict_get data ''count'' (JInt 0) of Inl e \<Rightarrow> (Inl e, w3)
      | Inr count \<Rightarrow>
     (case dict_get data ''next'' JNull of Inl e \<Rightarrow> (Inl e, w3)
      | Inr next_url' \<Rightarrow>
     (case dict_get data ''results'' (JList []) of Inl e \<Rightarrow> (Inl e, w3)
      | Inr results \<Rightarrow>
     (case py_len results of Inl e \<Rightarrow> (Inl e, w3)
      | Inr results_count \<Rightarrow>
          (Inr next_url',
           log_message (''Page '' @ str_nat page @ '' downloaded: ''
             @ str_nat results_count @ '' panels (Total in API: '' @ py_str env count
             @ '')'') INFO w3)))))))"

text \<open>The \<open>while\<close> loop of lines 94 to 126, with its safety check.\<close>

function panels_loop ::
  "env \<Rightarrow> path \<Rightarrow> nat \<Rightarrow> json \<Rightarrow> world \<Rightarrow> (error + nat) \<times> world" where
  "panels_loop env output_dir page next_url w =
     (if py_truthy next_url \<and> next_url \<noteq> JStr ''null'' then
        (case fetch_panels_page env output_dir page next_url w of
           (Inl e, w1) \<Rightarrow> (Inl e, w1)
         | (Inr next_url', w1) \<Rightarrow>
             if Suc page > 1000 then
               (Inr (Suc page),
                log_message
                  ''Safety limit reached (1000 pages). Stopping to prevent infinite loop.''
                  ERROR w1)
             else panels_loop env output_dir (Suc page) next_url' w1)
      else (Inr page, w))"
  by pat_completeness auto
termination
  by (relation "measure (\<lambda>(env, output_dir, page, next_url, w). 1000 - page)") auto

declare panels_loop.simps [simp del]

text \<open>\<open>download_panels\<close>: an exception of the loop is logged and raised again.\<close>

definition download_panels :: "env \<Rightarrow> path \<Rightarrow> world \<Rightarrow> (error + unit) \<times> world" where
  "download_panels env output_dir w =
     (case panels_loop env output_dir 1 (JStr (''https://panelapp-aus.org/api'' @ ''/'' @ ''v1''
                                               @ ''/panels/''))
             (log_message ''Starting panel data extraction...'' INFO w) of
        (Inr page, w1) \<Rightarrow>
          (Inr (), log_message (''Panel data extraction completed. Downloaded ''
                                 @ str_nat (page - 1) @ '' pages.'') INFO w1)
      | (Inl e, w1) \<Rightarrow>
          (Inl e,
           if e = RequestException
           then log_message (''HTTP error during panel download: '' @ str_error e) ERROR w1
           else log_message (''Unexpected error during panel download: '' @ str_error e) ERROR w1))"

section \<open>Example data\<close>

text \<open>The entity of the scenarios: panel 137 with the version marker
  \<open>2024-03-01T00:00:00Z\<close>, a data folder without any marker, and a data folder
  whose marker file for panel 137 is a given node.\<close>

definition panel_137 :: panel where
  "panel_137 = [''id'' \<mapsto> ''137'', ''name'' \<mapsto> ''Example panel'', ''version'' \<mapsto> ''1.2'',
                ''version_created'' \<mapsto> ''2024-03-01T00:00:00Z'']"

definition fresh_world :: world where
  "fresh_world =
     \<lparr>fs = [[''data''] \<mapsto> Dir], stat_error = (\<lambda>p. False), console = [], sent = []\<rparr>"

definition marker_world :: "node \<Rightarrow> world" where
  "marker_world n =
     \<lparr>fs = [[''data''] \<mapsto> Dir, [''data'', ''panels''] \<mapsto> Dir,
            [''data'', ''panels'', ''137''] \<mapsto> Dir,
            [''data'', ''panels'', ''137'', ''version_created.txt''] \<mapsto> n],
      stat_error = (\<lambda>p. False), console = [], sent = []\<rparr>"

text \<open>The panel a row of the catalog file contributes, if any: the row must hold a
  string in each of the four fields read (a missing column counts as its default), and
  the stripped id must pass \<open>isdigit\<close>. This is what lines 96 to 104 append.\<close>

definition row_panel :: "row \<Rightarrow> panel option" where
  "row_panel r =
     (case (row_get r ''id'' [], row_get r ''name'' ''Unknown'',
            row_get r ''version'' ''Unknown'', row_get r ''version_created'' []) of
        (PyStr i, PyStr n, PyStr v, PyStr c) \<Rightarrow>
          if isdigit (strip i)
          then Some [''id'' \<mapsto> strip i, ''name'' \<mapsto> strip n, ''version'' \<mapsto> strip v,
                     ''version_created'' \<mapsto> strip c]
          else None
      | _ \<Rightarrow> None)"

text \<open>Two rows: one with the id \<open>137\<close> that is shorter than the header, so that its
  other fields are \<open>None\<close>, and a full row whose id is the superscript two.\<close>

definition short_row :: row where
  "short_row = [''id'' \<mapsto> PyStr ''137'', ''name'' \<mapsto> PyNone, ''version'' \<mapsto> PyNone,
                ''version_created'' \<mapsto> PyNone]"

definition superscript_row :: row where
  "superscript_row = [''id'' \<mapsto> PyStr [CHR 0xB2], ''name'' \<mapsto> PyStr ''Two'',
                      ''version'' \<mapsto> PyStr ''0.1'',
                      ''version_created'' \<mapsto> PyStr ''2024-03-01T00:00:00Z'']"

text \<open>A data folder whose catalog file is a given node, and an environment without
  network whose catalog reader yields the two rows above.\<close>

definition catalog_world :: "node \<Rightarrow> world" where
  "catalog_world n =
     \<lparr>fs = [[''data''] \<mapsto> Dir, [''data'', ''panel_list.tsv''] \<mapsto> n],
      stat_error = (\<lambda>p. False), console = [], sent = []\<rparr>"

definition offline_env :: env where
  "offline_env =
     \<lparr>http_get = (\<lambda>n url. Inl RequestException), json_dumps = (\<lambda>j. []),
      py_str = (\<lambda>j. []), csv_reader = (\<lambda>content. [short_row, superscript_row])\<rparr>"

text \<open>What the loop of \<open>main\<close> over the panels to update (lines 270 to 278) sees:
  the panels it has refreshed, in order, each with the value of \<open>result['success']\<close>.
  The list ends where an exception ends the loop.\<close>

fun refresh_outcomes :: "env \<Rightarrow> path \<Rightarrow> panel list \<Rightarrow> world \<Rightarrow> (panel \<times> bool) list" where
  "refresh_outcomes env data_folder [] w = []"
| "refresh_outcomes env data_folder (panel # panels) w =
     (case download_panel_genes env data_folder panel w of
        (Inl e, w1) \<Rightarrow> []
      | (Inr result, w1) \<Rightarrow>
          if success result then
            (panel, True) #
              (case update_panel_version_tracking data_folder panel w1 of
                 (Inl e, w2) \<Rightarrow> []
               | (Inr u, w2) \<Rightarrow> refresh_outcomes env data_folder panels w2)
          else (panel, False) # refresh_outcomes env data_folder panels w1)"

text \<open>A server whose every page is the empty JSON object, so that each download has
  one page and succeeds.\<close>

definition one_page_env :: env where
  "one_page_env =
     \<lparr>http_get = (\<lambda>n url. Inr (JDict [])), json_dumps = (\<lambda>j. ''{}''),
      py_str = (\<lambda>j. ''0''), csv_reader = (\<lambda>content. [])\<rparr>"

text \<open>A catalog of three entities, and a data folder that holds an older marker for
  panel 137, the marker of the catalog for panel 42 and no marker for panel 7.\<close>

definition panel_42 :: panel where
  "panel_42 = [''id'' \<mapsto> ''42'', ''name'' \<mapsto> ''Second panel'', ''version'' \<mapsto> ''0.3'',
               ''version_created'' \<mapsto> ''2024-02-15T00:00:00Z'']"

definition panel_7 :: panel where
  "panel_7 = [''id'' \<mapsto> ''7'', ''name'' \<mapsto> ''Third panel'', ''version'' \<mapsto> ''2.0'',
              ''version_created'' \<mapsto> ''2024-03-01T00:00:00Z'']"

definition plan_world :: world where
  "plan_world =
     \<lparr>fs = [[''data''] \<mapsto> Dir, [''data'', ''panels''] \<mapsto> Dir,
            [''data'', ''panels'', ''137''] \<mapsto> Dir,
            [''data'', ''panels'', ''137'', ''version_created.txt'']
              \<mapsto> File ''2024-02-15T00:00:00Z'',
            [''data'', ''panels'', ''42''] \<mapsto> Dir,
            [''data'', ''panels'', ''42'', ''version_created.txt'']
              \<mapsto> File ''2024-02-15T00:00:00Z''],
      stat_error = (\<lambda>p. False), console = [], sent = []\<rparr>"

text \<open>A data folder with a directory \<open>d\<close> that may not be searched: the folder
  holds the catalog file and the marker of panel 137, and the operating system refuses
  every path below \<open>d\<close>.\<close>

definition sealed_world :: "path \<Rightarrow> world" where
  "sealed_world d =
     \<lparr>fs = [[''data''] \<mapsto> Dir, [''data'', ''panel_list.tsv''] \<mapsto> File ''id'',
            [''data'', ''panels''] \<mapsto> Dir, [''data'', ''panels'', ''137''] \<mapsto> Dir,
            [''data'', ''panels'', ''137'', ''version_created.txt'']
              \<mapsto> File ''2024-03-01T00:00:00Z''],
      stat_error = (\<lambda>p. length d < length p \<and> take (length d) p = d),
      console = [], sent = []\<rparr>"

text \<open>An entity whose id has 256 digits, and a data folder on a file system that refuses
  a name of more than 255 characters. The folder holds no marker.\<close>

definition panel_long :: panel where
  "panel_long = [''id'' \<mapsto> replicate 256 (CHR ''1''), ''name'' \<mapsto> ''Long panel'',
                 ''version'' \<mapsto> ''1.0'', ''version_created'' \<mapsto> ''2024-03-01T00:00:00Z'']"

definition long_name_world :: world where
  "long_name_world =
     \<lparr>fs = [[''data''] \<mapsto> Dir, [''data'', ''panels''] \<mapsto> Dir],
      stat_error = (\<lambda>p. list_ex (\<lambda>c. 255 < length c) p), console = [], sent = []\<rparr>"

section \<open>What the staleness check reads and writes\<close>

lemma fs_log_message [simp]: "fs (log_message m l w) = fs w"
  by (simp add: log_message_def)

lemma stat_error_log_message [simp]: "stat_error (log_message m l w) = stat_error w"
  by (simp add: log_message_def)

lemma sent_log_message [simp]: "sent (log_message m l w) = sent w"
  by (simp add: log_message_def)

lemma console_log_message [simp]: "console (log_message m l w) = console w @ [(l, m)]"
  by (simp add: log_message_def)

lemma path_exists_log_message [simp]: "path_exists (log_message m l w) p = path_exists w p"
  by (simp add: path_exists_def)

lemma os_path_exists_log_message [simp]:
  "os_path_exists (log_message m l w) p = os_path_exists w p"
  by (simp add: os_path_exists_def)

lemma read_text_log_message [simp]: "read_text (log_message m l w) p = read_text w p"
  by (simp add: read_text_def)

lemma check_version_fs:
  "check_version i c vf w = Inr (b, w') \<Longrightarrow>
   fs w' = fs w \<and> sent w' = sent w \<and> stat_error w' = stat_error w"
  by (auto simp: check_version_def split: sum.splits if_splits option.splits)

lemma panel_needs_update_fs: "fs (snd (panel_needs_update p df force w)) = fs w"
  by (auto simp: panel_needs_update_def split: option.splits sum.splits bool.splits
      dest: check_version_fs)

lemma panel_needs_update_stat_error:
  "stat_error (snd (panel_needs_update p df force w)) = stat_error w"
  by (auto simp: panel_needs_update_def split: option.splits sum.splits bool.splits
      dest: check_version_fs)

lemma panel_needs_update_sent: "sent (snd (panel_needs_update p df force w)) = sent w"
  by (auto simp: panel_needs_update_def split: option.splits sum.splits bool.splits
      dest: check_version_fs)

lemma check_version_cong:
  "fs w = fs w' \<Longrightarrow> stat_error w = stat_error w' \<Longrightarrow>
   map_sum id fst (check_version i c vf w) = map_sum id fst (check_version i c vf w')"
  by (auto simp: check_version_def read_version_file_def read_text_def
      split: sum.splits if_splits option.splits node.splits)

text \<open>The answer of the staleness check depends on the file system only, not on what
  has been printed or requested before.\<close>

lemma panel_needs_update_cong:
  assumes "fs w = fs w'" and "stat_error w = stat_error w'"
  shows "fst (panel_needs_update p df force w) = fst (panel_needs_update p df force w')"
proof (cases "force \<or> p ''id'' = None \<or> p ''version_created'' = None")
  case True
  then show ?thesis by (auto simp: panel_needs_update_def split: option.splits)
next
  case False
  then obtain i c where ic: "p ''id'' = Some i" "p ''version_created'' = Some c"
    and nf: "\<not> force"
    by auto
  have ex: "path_exists w (version_file_of df i) = path_exists w' (version_file_of df i)"
    using assms by (simp add: path_exists_def)
  have cv: "map_sum id fst (check_version i c (version_file_of df i) w)
          = map_sum id fst (check_version i c (version_file_of df i) w')"
    using assms by (rule check_version_cong)
  show ?thesis
  proof (cases "check_version i c (version_file_of df i) w")
    case (Inl e)
    then have "check_version i c (version_file_of df i) w' = Inl e"
      using cv by (cases "check_version i c (version_file_of df i) w'") auto
    then show ?thesis using Inl ic nf ex
      by (simp add: panel_needs_update_def split: sum.splits bool.splits)
  next
    case (Inr r)
    then obtain r' where r': "check_version i c (version_file_of df i) w' = Inr r'"
      "fst r' = fst r"
      using cv by (cases "check_version i c (version_file_of df i) w'") auto
    then show ?thesis using Inr ic nf ex
      by (cases r; cases r') (simp add: panel_needs_update_def split: sum.splits bool.splits)
  qed
qed

text \<open>The check raises on an entity, a panel with the two keys it reads, only where the
  existence test of line 128 raises.\<close>

lemma panel_needs_update_returns:
  assumes "p ''id'' = Some i" and "p ''version_created'' = Some c"
    and "force \<or> path_exists w (version_file_of df i) = Inr x"
  shows "\<exists>b. fst (panel_needs_update p df force w) = Inr b"
  using assms
  by (cases "check_version i c (version_file_of df i) w")
     (auto simp: panel_needs_update_def split: prod.splits bool.splits)

lemma panel_needs_update_force: "panel_needs_update p df True w = (Inr True, w)"
  by (simp add: panel_needs_update_def)

lemma panels_to_update_fs: "fs (snd (panels_to_update ps df force w)) = fs w"
proof (induction ps arbitrary: w)
  case Nil
  then show ?case by simp
next
  case (Cons p ps)
  show ?case
  proof (cases "panel_needs_update p df force w")
    case (Pair r w1)
    then have w1: "fs w1 = fs w" using panel_needs_update_fs[of p df force w] by simp
    show ?thesis
    proof (cases r)
      case (Inl e)
      then show ?thesis using Pair w1 by simp
    next
      case (Inr b)
      then show ?thesis using Pair w1 Cons.IH[of w1]
        by (cases "panels_to_update ps df force w1") (auto split: sum.splits)
    qed
  qed
qed

lemma panels_to_update_force: "panels_to_update ps df True w = (Inr ps, w)"
  by (induction ps) (simp_all add: panel_needs_update_force)

text \<open>Where every call of the check returns, the comprehension is a filter.\<close>

lemma panels_to_update_filter:
  assumes "\<forall>p \<in> set ps. \<exists>b. fst (panel_needs_update p df force w0) = Inr b"
    and "fs w = fs w0" and "stat_error w = stat_error w0"
  shows "fst (panels_to_update ps df force w)
       = Inr (filter (\<lambda>p. fst (panel_needs_update p df force w0) = Inr True) ps)"
  using assms
proof (induction ps arbitrary: w)
  case Nil
  then show ?case by simp
next
  case (Cons p ps)
  obtain r w1 where pnu: "panel_needs_update p df force w = (r, w1)"
    by (cases "panel_needs_update p df force w")
  have same: "fst (panel_needs_update p df force w0) = r"
    using panel_needs_update_cong[OF Cons.prems(2,3), of p df force] pnu by simp
  then obtain b where b: "r = Inr b"
    using Cons.prems(1) by auto
  have w1: "fs w1 = fs w0"
    using panel_needs_update_fs[of p df force w] pnu Cons.prems(2) by simp
  have s1: "stat_error w1 = stat_error w0"
    using panel_needs_update_stat_error[of p df force w] pnu Cons.prems(3) by simp
  have IH: "fst (panels_to_update ps df force w1)
          = Inr (filter (\<lambda>p. fst (panel_needs_update p df force w0) = Inr True) ps)"
    using Cons.IH[OF _ w1 s1] Cons.prems(1) by simp
  show ?case using pnu b same IH
    by (cases "panels_to_update ps df force w1") (auto split: sum.splits)
qed

text \<open>Where a call of the check raises, the comprehension raises.\<close>

lemma panels_to_update_raises:
  assumes "p \<in> set ps" and "fst (panel_needs_update p df force w0) = Inl e"
    and "fs w = fs w0" and "stat_error w = stat_error w0"
  shows "\<exists>e'. fst (panels_to_update ps df force w) = Inl e'"
  using assms
proof (induction ps arbitrary: w)
  case Nil
  then show ?case by simp
next
  case (Cons q ps)
  obtain r w1 where pnu: "panel_needs_update q df force w = (r, w1)"
    by (cases "panel_needs_update q df force w")
  have same: "fst (panel_needs_update q df force w0) = r"
    using panel_needs_update_cong[OF Cons.prems(3,4), of q df force] pnu by simp
  have w1: "fs w1 = fs w0"
    using panel_needs_update_fs[of q df force w] pnu Cons.prems(3) by simp
  have s1: "stat_error w1 = stat_error w0"
    using panel_needs_update_stat_error[of q df force w] pnu Cons.prems(4) by simp
  show ?case
  proof (cases r)
    case (Inl e1)
    then show ?thesis using pnu by simp
  next
    case (Inr b)
    then have "p \<noteq> q" using same Cons.prems(2) by auto
    then have "p \<in> set ps" using Cons.prems(1) by simp
    then obtain e' where "fst (panels_to_update ps df force w1) = Inl e'"
      using Cons.IH[OF _ Cons.prems(2) w1 s1] by auto
    then show ?thesis using pnu Inr
      by (cases "panels_to_update ps df force w1") (auto split: sum.splits)
  qed
qed

section \<open>The claims about planning\<close>

text \<open>
  Claim C3. The filtering of the catalog in \<open>main\<close> (lines 255 to 258) returns the
  panels of the input catalog, in input order, that the staleness check finds in need
  of an update: where every call of the check on the catalog returns, the result is the
  catalog filtered by ``the force flag is set or \<open>panel_needs_update\<close> without force
  answers true'', so a panel is kept if and only if that holds of it. Where a call of
  the check raises, the filtering raises and returns no list. With the force flag the
  filtering always returns, and returns every panel, whatever is stored.
\<close>

theorem panels_to_update_plan:
  "((\<forall>p \<in> set panels. \<exists>b. fst (panel_needs_update p data_folder force w) = Inr b) \<longrightarrow>
      fst (panels_to_update panels data_folder force w)
        = Inr (filter (\<lambda>p. force \<or> fst (panel_needs_update p data_folder False w) = Inr True)
                 panels))
   \<and> ((\<exists>p \<in> set panels. \<exists>e. fst (panel_needs_update p data_folder force w) = Inl e) \<longrightarrow>
      (\<exists>e. fst (panels_to_update panels data_folder force w) = Inl e))
   \<and> fst (panels_to_update panels data_folder True w) = Inr panels"
proof (intro conjI impI)
  assume ret: "\<forall>p \<in> set panels. \<exists>b. fst (panel_needs_update p data_folder force w) = Inr b"
  show "fst (panels_to_update panels data_folder force w)
        = Inr (filter (\<lambda>p. force \<or> fst (panel_needs_update p data_folder False w) = Inr True)
                 panels)"
  proof (cases force)
    case True
    then show ?thesis by (simp add: panels_to_update_force)
  next
    case False
    then show ?thesis
      using panels_to_update_filter[OF ret refl refl] by simp
  qed
next
  assume "\<exists>p \<in> set panels. \<exists>e. fst (panel_needs_update p data_folder force w) = Inl e"
  then obtain p e where "p \<in> set panels"
    and "fst (panel_needs_update p data_folder force w) = Inl e"
    by auto
  then show "\<exists>e. fst (panels_to_update panels data_folder force w) = Inl e"
    by (rule panels_to_update_raises) simp_all
next
  show "fst (panels_to_update panels data_folder True w) = Inr panels"
    by (simp add: panels_to_update_force)
qed

text \<open>
  Claim C8. Computing the list of panels to update creates no file and changes no
  stored version marker: the file system after the filtering is the file system before
  it, and no request has been sent.
\<close>

theorem panels_to_update_read_only:
  "fs (snd (panels_to_update panels data_folder force w)) = fs w"
  by (rule panels_to_update_fs)

text \<open>
  Claim C6, as amended. The staleness check raises on an entity (a panel with an id
  and a version marker) exactly where the existence test of the marker file, which
  stands at line 128 before the \<open>try\<close>, raises: that exception leaves the function.
  Where the test answers, or with the force flag, the check returns; and it answers
  true whenever the stored marker file is absent, is empty after stripping, or does not
  parse as a timestamp, whatever the incoming marker.
\<close>

theorem panel_needs_update_fail_open:
  assumes "panel ''id'' = Some panel_id" and "panel ''version_created'' = Some incoming"
  shows "(\<forall>e. path_exists w (version_file_of data_folder panel_id) = Inl e
         \<longrightarrow> panel_needs_update panel data_folder False w = (Inl e, w))
    \<and> ((force \<or> (\<exists>x. path_exists w (version_file_of data_folder panel_id) = Inr x))
         \<longrightarrow> (\<exists>b. fst (panel_needs_update panel data_folder force w) = Inr b))
    \<and> (path_exists w (version_file_of data_folder panel_id) = Inr False
         \<longrightarrow> fst (panel_needs_update panel data_folder force w) = Inr True)
    \<and> (read_version_file w (version_file_of data_folder panel_id) = Inr []
         \<longrightarrow> fst (panel_needs_update panel data_folder force w) = Inr True)
    \<and> ((\<exists>stored. read_version_file w (version_file_of data_folder panel_id) = Inr stored
           \<and> fromisoformat (replace (CHR ''Z'') ''+00:00'' stored) = None)
         \<longrightarrow> fst (panel_needs_update panel data_folder force w) = Inr True)"
proof (intro conjI impI allI)
  fix e
  assume "path_exists w (version_file_of data_folder panel_id) = Inl e"
  then show "panel_needs_update panel data_folder False w = (Inl e, w)"
    using assms by (simp add: panel_needs_update_def)
next
  assume "force \<or> (\<exists>x. path_exists w (version_file_of data_folder panel_id) = Inr x)"
  then show "\<exists>b. fst (panel_needs_update panel data_folder force w) = Inr b"
    using panel_needs_update_returns[OF assms, of force w data_folder] by auto
next
  assume "path_exists w (version_file_of data_folder panel_id) = Inr False"
  then show "fst (panel_needs_update panel data_folder force w) = Inr True"
    using assms by (simp add: panel_needs_update_def)
next
  assume r: "read_version_file w (version_file_of data_folder panel_id) = Inr []"
  then have "path_exists w (version_file_of data_folder panel_id) = Inr True"
    by (auto simp: read_version_file_def read_text_def path_exists_def
        split: if_splits option.splits node.splits)
  then show "fst (panel_needs_update panel data_folder force w) = Inr True"
    using assms r by (simp add: panel_needs_update_def check_version_def)
next
  assume "\<exists>stored. read_version_file w (version_file_of data_folder panel_id) = Inr stored
           \<and> fromisoformat (replace (CHR ''Z'') ''+00:00'' stored) = None"
  then obtain stored where
    r: "read_version_file w (version_file_of data_folder panel_id) = Inr stored"
    and u: "fromisoformat (replace (CHR ''Z'') ''+00:00'' stored) = None"
    by auto
  from r have "path_exists w (version_file_of data_folder panel_id) = Inr True"
    by (auto simp: read_version_file_def read_text_def path_exists_def
        split: if_splits option.splits node.splits)
  then show "fst (panel_needs_update panel data_folder force w) = Inr True"
    using assms r u
    by (auto simp: panel_needs_update_def check_version_def split: option.splits sum.splits)
qed

section \<open>The calendar and the order of datetimes\<close>

text \<open>The ordinal of a date grows with the date, so comparing the fields of two valid
  datetimes one after the other is comparing the instants they stand for.\<close>

lemma mod_0_divisor:
  assumes "(a::nat) dvd b" "n mod b = 0"
  shows "n mod a = 0"
proof -
  from assms(2) have "b dvd n" by (simp add: mod_eq_0_iff_dvd)
  with assms(1) have "a dvd n" by (rule dvd_trans)
  then show ?thesis by (simp add: mod_eq_0_iff_dvd)
qed

lemma days_before_year_Suc:
  assumes "1 \<le> y"
  shows "days_before_year (Suc y) = days_before_year y + 365 + (if is_leap y then 1 else 0)"
proof -
  obtain k where k: "y = Suc k" using assms by (cases y) auto
  define a b c where "a = k div 4" and "b = k div 100" and "c = k div 400"
  define p q r :: nat where "p = (if Suc k mod 4 = 0 then 1 else 0)"
    and "q = (if Suc k mod 100 = 0 then 1 else 0)"
    and "r = (if Suc k mod 400 = 0 then 1 else 0)"
  have d4: "Suc k div 4 = a + p"
    by (simp add: div_Suc a_def p_def)
  have d100: "Suc k div 100 = b + q"
    by (simp add: div_Suc b_def q_def)
  have d400: "Suc k div 400 = c + r"
    by (simp add: div_Suc c_def r_def)
  have i1: "Suc k mod 100 = 0 \<Longrightarrow> Suc k mod 4 = 0"
    by (rule mod_0_divisor[of 4 100]) simp_all
  have i2: "Suc k mod 400 = 0 \<Longrightarrow> Suc k mod 100 = 0"
    by (rule mod_0_divisor[of 100 400]) simp_all
  have qp: "q \<le> p" using i1 by (auto simp: p_def q_def)
  have rq: "r \<le> q" using i2 by (auto simp: q_def r_def)
  have p1: "p \<le> 1" by (simp add: p_def)
  have le: "b \<le> a" unfolding a_def b_def by (rule div_le_mono2) simp_all
  have leap: "(if is_leap (Suc k) then 1 else 0) = p - q + r"
    using i1 i2 by (auto simp: is_leap_def p_def q_def r_def)
  have L: "days_before_year (Suc (Suc k)) = (k * 365 + 365) + (a + p) - (b + q) + (c + r)"
    by (simp add: days_before_year_def d4 d100 d400)
  have R: "days_before_year (Suc k) = k * 365 + a - b + c"
    by (simp add: days_before_year_def a_def b_def c_def)
  have "(k * 365 + 365) + (a + p) - (b + q) + (c + r) = (k * 365 + a - b + c) + 365 + (p - q + r)"
    using le qp rq by linarith
  then show ?thesis unfolding k L R leap .
qed

lemma days_before_year_mono_Suc: "1 \<le> y \<Longrightarrow> days_before_year y + 365 \<le> days_before_year (Suc y)"
  by (simp add: days_before_year_Suc)

lemma days_before_year_less:
  assumes "1 \<le> y1" "y1 < y2"
  shows "days_before_year y1 + 365 + (if is_leap y1 then 1 else 0) \<le> days_before_year y2"
  using assms(2,1)
proof (induction y2)
  case 0
  then show ?case by simp
next
  case (Suc y2)
  show ?case
  proof (cases "y1 = y2")
    case True
    then show ?thesis using Suc.prems by (simp add: days_before_year_Suc)
  next
    case False
    then have "y1 < y2" using Suc.prems by simp
    then have "days_before_year y1 + 365 + (if is_leap y1 then 1 else 0) \<le> days_before_year y2"
      using Suc.IH Suc.prems by simp
    moreover have "days_before_year y2 \<le> days_before_year (Suc y2)"
      using days_before_year_mono_Suc[of y2] \<open>y1 < y2\<close> Suc.prems by simp
    ultimately show ?thesis by simp
  qed
qed

lemma month_cases:
  "1 \<le> m \<Longrightarrow> m \<le> 12 \<Longrightarrow> m = 1 \<or> m = 2 \<or> m = 3 \<or> m = 4 \<or> m = 5 \<or> m = 6 \<or> m = 7 \<or> m = 8 \<or> m = 9 \<or> m = 10 \<or> m = 11 \<or> m = (12::nat)"
  by arith

lemma days_before_month_Suc:
  assumes "1 \<le> m" "m < 12"
  shows "days_before_month y (Suc m) = days_before_month y m + days_in_month y m"
proof -
  from assms have "m = 1 \<or> m = 2 \<or> m = 3 \<or> m = 4 \<or> m = 5 \<or> m = 6 \<or> m = 7 \<or> m = 8 \<or> m = 9 \<or> m = 10 \<or> m = 11"
    by arith
  then show ?thesis
    by (elim disjE) (simp_all add: days_before_month_def days_in_month_def)
qed

lemma days_before_month_less:
  assumes "1 \<le> m1" "m1 < m2" "m2 \<le> 12"
  shows "days_before_month y m1 + days_in_month y m1 \<le> days_before_month y m2"
  using assms(2,1,3)
proof (induction m2)
  case 0
  then show ?case by simp
next
  case (Suc m2)
  show ?case
  proof (cases "m1 = m2")
    case True
    then show ?thesis using Suc.prems by (simp add: days_before_month_Suc)
  next
    case False
    then have lt: "m1 < m2" using Suc.prems by simp
    then have "days_before_month y m1 + days_in_month y m1 \<le> days_before_month y m2"
      using Suc.IH Suc.prems by simp
    moreover have "days_before_month y m2 \<le> days_before_month y (Suc m2)"
      using days_before_month_Suc[of m2 y] lt Suc.prems by simp
    ultimately show ?thesis by simp
  qed
qed

lemma days_in_year:
  assumes "1 \<le> m" "m \<le> 12"
  shows "days_before_month y m + days_in_month y m \<le> 365 + (if is_leap y then 1 else 0)"
proof -
  have "days_before_month y 12 + days_in_month y 12 = 365 + (if is_leap y then 1 else 0)"
    by (simp add: days_before_month_def days_in_month_def)
  then show ?thesis
    using days_before_month_less[of m 12 y] assms by (cases "m = 12") auto
qed

lemma ymd2ord_less:
  assumes "1 \<le> y1" "1 \<le> m1" "m1 \<le> 12" "1 \<le> m2" "m2 \<le> 12"
    "1 \<le> d1" "d1 \<le> days_in_month y1 m1" "1 \<le> d2" "d2 \<le> days_in_month y2 m2"
    and "y1 < y2 \<or> (y1 = y2 \<and> (m1 < m2 \<or> (m1 = m2 \<and> d1 < d2)))"
  shows "ymd2ord y1 m1 d1 < ymd2ord y2 m2 d2"
proof -
  consider "y1 < y2" | "y1 = y2" "m1 < m2" | "y1 = y2" "m1 = m2" "d1 < d2"
    using assms(10) by blast
  then show ?thesis
  proof cases
    case 1
    have "days_before_month y1 m1 + d1 \<le> 365 + (if is_leap y1 then 1 else 0)"
      using days_in_year[of m1 y1] assms by linarith
    moreover have "days_before_year y1 + 365 + (if is_leap y1 then 1 else 0) \<le> days_before_year y2"
      using days_before_year_less[OF assms(1) 1] .
    ultimately show ?thesis using assms(8) unfolding ymd2ord_def by linarith
  next
    case 2
    have "days_before_month y1 m1 + days_in_month y1 m1 \<le> days_before_month y1 m2"
      using days_before_month_less[of m1 m2 y1] assms 2 by simp
    then show ?thesis using assms(6-9) 2 unfolding ymd2ord_def by simp
  next
    case 3
    then show ?thesis unfolding ymd2ord_def by simp
  qed
qed


lemma cmp_fields_range: "cmp_fields xs ys = - 1 \<or> cmp_fields xs ys = 0 \<or> cmp_fields xs ys = 1"
  by (induction xs ys rule: cmp_fields.induct) auto

lemma cmp_fields_swap: "cmp_fields ys xs = - cmp_fields xs ys"
  by (induction xs ys rule: cmp_fields.induct) auto

lemma cmp_fields_0:
  "cmp_fields (field_list a) (field_list b) = 0 \<Longrightarrow> naive_micros a = naive_micros b"
  by (simp add: field_list_def naive_micros_def split: if_splits)

lemma naive_micros_less:
  assumes a: "check_fields a" and b: "check_fields b"
    and c: "cmp_fields (field_list a) (field_list b) = - 1"
  shows "naive_micros a < naive_micros b"
proof -
  have ba: "hour a < 24" "minute a < 60" "second a < 60" "microsecond a < 1000000"
    using a by (simp_all add: check_fields_def)
  have bb: "hour b < 24" "minute b < 60" "second b < 60" "microsecond b < 1000000"
    using b by (simp_all add: check_fields_def)
  consider (date) "year a < year b \<or> (year a = year b \<and> (month a < month b
        \<or> (month a = month b \<and> day a < day b)))"
    | (time) "year a = year b" "month a = month b" "day a = day b"
      "hour a < hour b \<or> (hour a = hour b \<and> (minute a < minute b
        \<or> (minute a = minute b \<and> (second a < second b
        \<or> (second a = second b \<and> microsecond a < microsecond b)))))"
    using c by (simp add: field_list_def split: if_splits)
  then show ?thesis
  proof cases
    case date
    have "ymd2ord (year a) (month a) (day a) < ymd2ord (year b) (month b) (day b)"
      using a b date by (intro ymd2ord_less) (simp_all add: check_fields_def)
    then have "int (ymd2ord (year a) (month a) (day a)) + 1
        \<le> int (ymd2ord (year b) (month b) (day b))"
      by simp
    then show ?thesis using ba bb unfolding naive_micros_def by simp
  next
    case time
    then show ?thesis using ba bb unfolding naive_micros_def by auto
  qed
qed

text \<open>On datetimes the constructor accepts, the field-by-field comparison is the
  comparison of the instants.\<close>

lemma cmp_fields_gt:
  assumes "check_fields a" and "check_fields b"
  shows "(0 < cmp_fields (field_list a) (field_list b)) = (naive_micros b < naive_micros a)"
proof -
  consider "cmp_fields (field_list a) (field_list b) = - 1"
    | "cmp_fields (field_list a) (field_list b) = 0"
    | "cmp_fields (field_list a) (field_list b) = 1"
    using cmp_fields_range by blast
  then show ?thesis
  proof cases
    case 1
    then show ?thesis using naive_micros_less[OF assms 1] by simp
  next
    case 2
    then show ?thesis using cmp_fields_0[OF 2] by simp
  next
    case 3
    then have "cmp_fields (field_list b) (field_list a) = - 1"
      using cmp_fields_swap[of "field_list b" "field_list a"] by simp
    then show ?thesis using naive_micros_less[OF assms(2,1)] 3 by simp
  qed
qed

lemma datetime_gt_utc:
  assumes "check_fields a" and "check_fields b"
    and "(tzinfo a = None) = (tzinfo b = None)"
  shows "datetime_gt a b = Inr (utc_micros b < utc_micros a)"
proof (cases "tzinfo a = tzinfo b")
  case True
  then show ?thesis using cmp_fields_gt[OF assms(1,2)]
    by (simp add: datetime_gt_def datetime_cmp_def utc_micros_def)
next
  case False
  then have "tzinfo a \<noteq> None" "tzinfo b \<noteq> None" using assms(3) by auto
  then show ?thesis using False
    by (auto simp: datetime_gt_def datetime_cmp_def Let_def)
qed

lemma datetime_gt_mixed:
  assumes "(tzinfo a = None) \<noteq> (tzinfo b = None)"
  shows "datetime_gt a b = Inl TypeError"
  using assms by (auto simp: datetime_gt_def datetime_cmp_def)

lemma fromisoformat_check_fields: "fromisoformat s = Some d \<Longrightarrow> check_fields d"
  by (auto simp: fromisoformat_def Let_def split: option.splits prod.splits if_splits)

section \<open>The staleness check on two parseable timestamps\<close>

lemmas datetime_eval = fromisoformat_def replace_def parse_isoformat_date_def parse_digits_def
  is_decimal_def parse_isoformat_time_def tz_pos_def find_char_def parse_hh_mm_ss_ff_def
  parse_fraction_def parse_tz_def check_fields_def days_in_month_def is_leap_def

lemmas instant_eval = utc_micros_def naive_micros_def ymd2ord_def days_before_year_def
  days_before_month_def is_leap_def

lemma parse_mar_Z:
  "fromisoformat (replace (CHR ''Z'') ''+00:00'' ''2024-03-01T00:00:00Z'') =
     Some \<lparr>year = 2024, month = 3, day = 1, hour = 0, minute = 0, second = 0,
            microsecond = 0, tzinfo = Some 0\<rparr>"
  by (simp add: datetime_eval)

lemma parse_feb_Z:
  "fromisoformat (replace (CHR ''Z'') ''+00:00'' ''2024-02-15T00:00:00Z'') =
     Some \<lparr>year = 2024, month = 2, day = 15, hour = 0, minute = 0, second = 0,
            microsecond = 0, tzinfo = Some 0\<rparr>"
  by (simp add: datetime_eval)

lemma parse_mar_naive:
  "fromisoformat (replace (CHR ''Z'') ''+00:00'' ''2024-03-01T00:00:00'') =
     Some \<lparr>year = 2024, month = 3, day = 1, hour = 0, minute = 0, second = 0,
            microsecond = 0, tzinfo = None\<rparr>"
  by (simp add: datetime_eval)

lemma parse_feb_naive:
  "fromisoformat (replace (CHR ''Z'') ''+00:00'' ''2024-02-15T00:00:00'') =
     Some \<lparr>year = 2024, month = 2, day = 15, hour = 0, minute = 0, second = 0,
            microsecond = 0, tzinfo = None\<rparr>"
  by (simp add: datetime_eval)

lemma panel_137_id: "panel_137 ''id'' = Some ''137''"
  by (simp add: panel_137_def)

lemma panel_137_version_created: "panel_137 ''version_created'' = Some ''2024-03-01T00:00:00Z''"
  by (simp add: panel_137_def)

lemma read_marker_world:
  "read_version_file (marker_world (File s)) (version_file_of [''data''] ''137'')
     = Inr (strip (universal_newlines s))"
  by (simp add: read_version_file_def read_text_def marker_world_def version_file_of_def)

lemma exists_marker_world:
  "path_exists (marker_world n) (version_file_of [''data''] ''137'') = Inr True"
  by (simp add: path_exists_def marker_world_def version_file_of_def)

lemma fresh_world_no_marker:
  "path_exists fresh_world (version_file_of [''data''] ''137'') = Inr False"
  by (simp add: path_exists_def fresh_world_def version_file_of_def)

text \<open>A file that has been read is a file the existence test has found.\<close>

lemma read_text_exists: "read_text w p = Inr s \<Longrightarrow> path_exists w p = Inr True"
  by (auto simp: read_text_def path_exists_def split: if_splits option.splits node.splits)

lemma read_version_file_exists:
  "read_version_file w p = Inr s \<Longrightarrow> path_exists w p = Inr True"
  by (cases "read_text w p") (auto simp: read_version_file_def dest: read_text_exists)

text \<open>What the check answers once both markers are read and parsed: the comparison of
  the two datetimes, with any exception of the comparison turned into "stale".\<close>

lemma panel_needs_update_parsed:
  assumes "panel ''id'' = Some panel_id" and "panel ''version_created'' = Some incoming"
    and "read_version_file w (version_file_of data_folder panel_id) = Inr stored"
    and "stored \<noteq> []"
    and "fromisoformat (replace (CHR ''Z'') ''+00:00'' incoming) = Some current_date"
    and "fromisoformat (replace (CHR ''Z'') ''+00:00'' stored) = Some last_date"
  shows "fst (panel_needs_update panel data_folder False w)
       = Inr (case datetime_gt current_date last_date of Inl e \<Rightarrow> True | Inr b \<Rightarrow> b)"
  using assms read_version_file_exists[OF assms(3)]
  by (simp add: panel_needs_update_def check_version_def split: sum.splits)

text \<open>
  Claim C1, as amended. For a stored marker file that is not empty and a pair of
  timestamps (stored, incoming) that both parse: when both carry a UTC offset or both
  carry none, the staleness check without force answers true if and only if the incoming
  timestamp is strictly later than the stored one after normalization to UTC (so equal
  instants give false); when exactly one of the two carries an offset, it answers true.
\<close>

theorem panel_needs_update_later:
  assumes "panel ''id'' = Some panel_id" and "panel ''version_created'' = Some incoming"
    and "read_version_file w (version_file_of data_folder panel_id) = Inr stored"
    and "stored \<noteq> []"
    and "fromisoformat (replace (CHR ''Z'') ''+00:00'' incoming) = Some current_date"
    and "fromisoformat (replace (CHR ''Z'') ''+00:00'' stored) = Some last_date"
  shows "fst (panel_needs_update panel data_folder False w)
       = Inr (if (tzinfo current_date = None) = (tzinfo last_date = None)
              then utc_micros last_date < utc_micros current_date else True)"
proof (cases "(tzinfo current_date = None) = (tzinfo last_date = None)")
  case True
  have "datetime_gt current_date last_date = Inr (utc_micros last_date < utc_micros current_date)"
    using fromisoformat_check_fields[OF assms(5)] fromisoformat_check_fields[OF assms(6)] True
    by (rule datetime_gt_utc)
  then have "fst (panel_needs_update panel data_folder False w)
      = Inr (utc_micros last_date < utc_micros current_date)"
    using panel_needs_update_parsed[OF assms] by simp
  then show ?thesis unfolding if_P[OF True] .
next
  case False
  then have "datetime_gt current_date last_date = Inl TypeError"
    by (rule datetime_gt_mixed)
  then have "fst (panel_needs_update panel data_folder False w) = Inr True"
    using panel_needs_update_parsed[OF assms] by simp
  then show ?thesis unfolding if_not_P[OF False] .
qed

theorem panel_needs_update_later_witness:
  "fst (panel_needs_update panel_137 [''data''] False
          (marker_world (File ''2024-02-15T00:00:00Z''))) = Inr True
   \<and> fst (panel_needs_update panel_137 [''data''] False
          (marker_world (File ''2024-03-01T00:00:00Z''))) = Inr False
   \<and> fst (panel_needs_update (panel_137(''version_created'' \<mapsto> ''2024-02-15T00:00:00Z''))
          [''data''] False (marker_world (File ''2024-03-01T00:00:00Z''))) = Inr False"
proof (intro conjI)
  have r1: "read_version_file (marker_world (File ''2024-02-15T00:00:00Z''))
              (version_file_of [''data''] ''137'') = Inr ''2024-02-15T00:00:00Z''"
    by (simp add: read_marker_world strip_def isspace_def)
  have r2: "read_version_file (marker_world (File ''2024-03-01T00:00:00Z''))
              (version_file_of [''data''] ''137'') = Inr ''2024-03-01T00:00:00Z''"
    by (simp add: read_marker_world strip_def isspace_def)
  show "fst (panel_needs_update panel_137 [''data''] False
          (marker_world (File ''2024-02-15T00:00:00Z''))) = Inr True"
    using panel_needs_update_later[OF panel_137_id panel_137_version_created r1 _
        parse_mar_Z parse_feb_Z]
    by (simp add: instant_eval)
  show "fst (panel_needs_update panel_137 [''data''] False
          (marker_world (File ''2024-03-01T00:00:00Z''))) = Inr False"
    using panel_needs_update_later[OF panel_137_id panel_137_version_created r2 _
        parse_mar_Z parse_mar_Z]
    by (simp add: instant_eval)
  show "fst (panel_needs_update (panel_137(''version_created'' \<mapsto> ''2024-02-15T00:00:00Z''))
          [''data''] False (marker_world (File ''2024-03-01T00:00:00Z''))) = Inr False"
    using panel_needs_update_later[of "panel_137(''version_created'' \<mapsto> ''2024-02-15T00:00:00Z'')"
        "''137''" "''2024-02-15T00:00:00Z''", OF _ _ r2 _ parse_feb_Z parse_mar_Z]
    by (simp add: instant_eval panel_137_def)
qed

text \<open>The claim as stated fails when only one of the two timestamps carries an offset:
  the stored marker \<open>2024-03-01T00:00:00\<close> and the incoming marker
  \<open>2024-03-01T00:00:00Z\<close> both parse and are the same instant after normalization to
  UTC, and the check answers true.\<close>

theorem panel_needs_update_equal_mixed_counterexample:
  "fromisoformat (replace (CHR ''Z'') ''+00:00'' ''2024-03-01T00:00:00'') =
     Some \<lparr>year = 2024, month = 3, day = 1, hour = 0, minute = 0, second = 0,
            microsecond = 0, tzinfo = None\<rparr>
   \<and> fromisoformat (replace (CHR ''Z'') ''+00:00'' ''2024-03-01T00:00:00Z'') =
     Some \<lparr>year = 2024, month = 3, day = 1, hour = 0, minute = 0, second = 0,
            microsecond = 0, tzinfo = Some 0\<rparr>
   \<and> utc_micros \<lparr>year = 2024, month = 3, day = 1, hour = 0, minute = 0, second = 0,
            microsecond = 0, tzinfo = None\<rparr>
     = utc_micros \<lparr>year = 2024, month = 3, day = 1, hour = 0, minute = 0, second = 0,
            microsecond = 0, tzinfo = Some 0\<rparr>
   \<and> fst (panel_needs_update panel_137 [''data''] False
            (marker_world (File ''2024-03-01T00:00:00''))) = Inr True"
proof (intro conjI)
  have r: "read_version_file (marker_world (File ''2024-03-01T00:00:00''))
              (version_file_of [''data''] ''137'') = Inr ''2024-03-01T00:00:00''"
    by (simp add: read_marker_world strip_def isspace_def)
  show "fst (panel_needs_update panel_137 [''data''] False
            (marker_world (File ''2024-03-01T00:00:00''))) = Inr True"
    using panel_needs_update_parsed[OF panel_137_id panel_137_version_created r _
        parse_mar_Z parse_mar_naive]
    by (simp add: datetime_gt_def datetime_cmp_def)
qed (simp_all add: parse_mar_naive parse_mar_Z utc_micros_def naive_micros_def)

text \<open>
  Claim C2, as amended. A timestamp without a UTC offset is not normalized. When
  neither the stored nor the incoming timestamp carries an offset, the answer is the
  comparison as if both carried \<open>+00:00\<close>. When exactly one of them carries no
  offset, the comparison raises, and the check answers true (stale).
\<close>

theorem panel_needs_update_offsetless:
  assumes "panel ''id'' = Some panel_id" and "panel ''version_created'' = Some incoming"
    and "read_version_file w (version_file_of data_folder panel_id) = Inr stored"
    and "stored \<noteq> []"
    and "fromisoformat (replace (CHR ''Z'') ''+00:00'' incoming) = Some current_date"
    and "fromisoformat (replace (CHR ''Z'') ''+00:00'' stored) = Some last_date"
  shows "(tzinfo current_date = None \<and> tzinfo last_date = None \<longrightarrow>
            fst (panel_needs_update panel data_folder False w)
              = datetime_gt (current_date\<lparr>tzinfo := Some 0\<rparr>) (last_date\<lparr>tzinfo := Some 0\<rparr>))
       \<and> ((tzinfo current_date = None) \<noteq> (tzinfo last_date = None) \<longrightarrow>
            fst (panel_needs_update panel data_folder False w) = Inr True)"
proof (intro conjI impI)
  assume naive: "tzinfo current_date = None \<and> tzinfo last_date = None"
  have same: "datetime_gt current_date last_date
      = datetime_gt (current_date\<lparr>tzinfo := Some 0\<rparr>) (last_date\<lparr>tzinfo := Some 0\<rparr>)"
    using naive by (simp add: datetime_gt_def datetime_cmp_def field_list_def)
  have gt: "datetime_gt current_date last_date
      = Inr (utc_micros last_date < utc_micros current_date)"
    using fromisoformat_check_fields[OF assms(5)] fromisoformat_check_fields[OF assms(6)] naive
    by (intro datetime_gt_utc) simp_all
  have "fst (panel_needs_update panel data_folder False w)
      = Inr (case datetime_gt current_date last_date of Inl e \<Rightarrow> True | Inr b \<Rightarrow> b)"
    by (rule panel_needs_update_parsed[OF assms])
  also have "\<dots> = datetime_gt current_date last_date"
    by (simp add: gt)
  also note same
  finally show "fst (panel_needs_update panel data_folder False w)
      = datetime_gt (current_date\<lparr>tzinfo := Some 0\<rparr>) (last_date\<lparr>tzinfo := Some 0\<rparr>)" .
next
  assume "(tzinfo current_date = None) \<noteq> (tzinfo last_date = None)"
  then have "datetime_gt current_date last_date = Inl TypeError"
    by (rule datetime_gt_mixed)
  then show "fst (panel_needs_update panel data_folder False w) = Inr True"
    using panel_needs_update_parsed[OF assms] by simp
qed

theorem panel_needs_update_offsetless_witness:
  "fst (panel_needs_update (panel_137(''version_created'' \<mapsto> ''2024-02-15T00:00:00''))
          [''data''] False (marker_world (File ''2024-03-01T00:00:00''))) = Inr False
   \<and> fst (panel_needs_update (panel_137(''version_created'' \<mapsto> ''2024-02-15T00:00:00''))
          [''data''] False (marker_world (File ''2024-03-01T00:00:00Z''))) = Inr True"
proof (intro conjI)
  have r1: "read_version_file (marker_world (File ''2024-03-01T00:00:00''))
              (version_file_of [''data''] ''137'') = Inr ''2024-03-01T00:00:00''"
    by (simp add: read_marker_world strip_def isspace_def)
  have r2: "read_version_file (marker_world (File ''2024-03-01T00:00:00Z''))
              (version_file_of [''data''] ''137'') = Inr ''2024-03-01T00:00:00Z''"
    by (simp add: read_marker_world strip_def isspace_def)
  show "fst (panel_needs_update (panel_137(''version_created'' \<mapsto> ''2024-02-15T00:00:00''))
          [''data''] False (marker_world (File ''2024-03-01T00:00:00''))) = Inr False"
    using panel_needs_update_offsetless[of "panel_137(''version_created'' \<mapsto> ''2024-02-15T00:00:00'')"
        "''137''" "''2024-02-15T00:00:00''", OF _ _ r1 _ parse_feb_naive parse_mar_naive]
    by (simp add: panel_137_def datetime_gt_def datetime_cmp_def field_list_def)
  show "fst (panel_needs_update (panel_137(''version_created'' \<mapsto> ''2024-02-15T00:00:00''))
          [''data''] False (marker_world (File ''2024-03-01T00:00:00Z''))) = Inr True"
    using panel_needs_update_offsetless[of "panel_137(''version_created'' \<mapsto> ''2024-02-15T00:00:00'')"
        "''137''" "''2024-02-15T00:00:00''", OF _ _ r2 _ parse_feb_naive parse_mar_Z]
    by (simp add: panel_137_def)
qed

text \<open>The example of the claim as stated: the stored marker \<open>2024-03-01T00:00:00\<close>
  without offset against the incoming \<open>2024-02-15T00:00:00Z\<close> gives true, not false.\<close>

theorem panel_needs_update_offsetless_counterexample:
  "fst (panel_needs_update (panel_137(''version_created'' \<mapsto> ''2024-02-15T00:00:00Z''))
          [''data''] False (marker_world (File ''2024-03-01T00:00:00''))) = Inr True"
proof -
  have r: "read_version_file (marker_world (File ''2024-03-01T00:00:00''))
              (version_file_of [''data''] ''137'') = Inr ''2024-03-01T00:00:00''"
    by (simp add: read_marker_world strip_def isspace_def)
  show ?thesis
    using panel_needs_update_parsed[of "panel_137(''version_created'' \<mapsto> ''2024-02-15T00:00:00Z'')"
        "''137''" "''2024-02-15T00:00:00Z''", OF _ _ r _ parse_feb_Z parse_mar_naive]
    by (simp add: panel_137_def datetime_gt_def datetime_cmp_def)
qed

section \<open>Witnesses for the claims about planning\<close>

text \<open>The staleness check on the three entities of the example catalog: panel 137 has
  an older marker stored, panel 42 the marker of the catalog, panel 7 none.\<close>

lemma plan_world_137:
  "fst (panel_needs_update panel_137 [''data''] False plan_world) = Inr True"
proof -
  have r: "read_version_file plan_world (version_file_of [''data''] ''137'')
             = Inr ''2024-02-15T00:00:00Z''"
    by (simp add: read_version_file_def read_text_def plan_world_def version_file_of_def
        strip_def isspace_def)
  show ?thesis
    using panel_needs_update_parsed[OF panel_137_id panel_137_version_created r _
        parse_mar_Z parse_feb_Z]
    by (simp add: datetime_gt_def datetime_cmp_def field_list_def)
qed

lemma plan_world_42:
  "fst (panel_needs_update panel_42 [''data''] False plan_world) = Inr False"
proof -
  have r: "read_version_file plan_world (version_file_of [''data''] ''42'')
             = Inr ''2024-02-15T00:00:00Z''"
    by (simp add: read_version_file_def read_text_def plan_world_def version_file_of_def
        strip_def isspace_def)
  show ?thesis
    using panel_needs_update_parsed[of panel_42 "''42''" "''2024-02-15T00:00:00Z''",
        OF _ _ r _ parse_feb_Z parse_feb_Z]
    by (simp add: panel_42_def datetime_gt_def datetime_cmp_def field_list_def)
qed

lemma plan_world_7:
  "fst (panel_needs_update panel_7 [''data''] False plan_world) = Inr True"
  by (simp add: panel_needs_update_def panel_7_def path_exists_def plan_world_def
      version_file_of_def)

lemma sealed_world_137:
  "path_exists (sealed_world [''data'']) (version_file_of [''data''] ''137'') = Inl OSError"
  by (simp add: path_exists_def sealed_world_def version_file_of_def)

theorem panels_to_update_plan_witness:
  "fst (panels_to_update [panel_137, panel_42, panel_7] [''data''] False plan_world)
     = Inr [panel_137, panel_7]
   \<and> fst (panels_to_update [panel_137, panel_42, panel_7] [''data''] True plan_world)
     = Inr [panel_137, panel_42, panel_7]
   \<and> (\<exists>e. fst (panels_to_update [panel_42, panel_137, panel_7] [''data''] False
                 (sealed_world [''data'']))
            = Inl e)"
proof (intro conjI)
  note t = panels_to_update_plan[of "[panel_137, panel_42, panel_7]" "[''data'']" False
      plan_world]
  have h: "\<forall>p \<in> set [panel_137, panel_42, panel_7].
             \<exists>b. fst (panel_needs_update p [''data''] False plan_world) = Inr b"
    by (auto simp: plan_world_137 plan_world_42 plan_world_7)
  have f: "filter (\<lambda>p. False \<or> fst (panel_needs_update p [''data''] False plan_world) = Inr True)
             [panel_137, panel_42, panel_7] = [panel_137, panel_7]"
    by (simp add: plan_world_137 plan_world_42 plan_world_7)
  show "fst (panels_to_update [panel_137, panel_42, panel_7] [''data''] False plan_world)
     = Inr [panel_137, panel_7]"
    using t[THEN conjunct1, THEN mp, OF h] unfolding f .
  show "fst (panels_to_update [panel_137, panel_42, panel_7] [''data''] True plan_world)
     = Inr [panel_137, panel_42, panel_7]"
    using t[THEN conjunct2, THEN conjunct2] .
  have "fst (panel_needs_update panel_137 [''data''] False (sealed_world [''data'']))
          = Inl OSError"
    using sealed_world_137
    by (simp add: panel_needs_update_def panel_137_id panel_137_version_created)
  then show "\<exists>e. fst (panels_to_update [panel_42, panel_137, panel_7] [''data''] False
                        (sealed_world [''data''])) = Inl e"
    using panels_to_update_plan[of "[panel_42, panel_137, panel_7]" "[''data'']" False
        "sealed_world [''data'']", THEN conjunct2, THEN conjunct1]
    by auto
qed

theorem panel_needs_update_fail_open_witness:
  "fst (panel_needs_update panel_137 [''data''] False fresh_world) = Inr True
   \<and> fst (panel_needs_update panel_137 [''data''] False (marker_world (File '' ''))) = Inr True
   \<and> fst (panel_needs_update panel_137 [''data''] False (marker_world (File ''yesterday'')))
       = Inr True
   \<and> panel_needs_update panel_137 [''data''] False (sealed_world [''data''])
       = (Inl OSError, sealed_world [''data''])
   \<and> (\<exists>b. fst (panel_needs_update panel_137 [''data''] False
                  (marker_world (File ''2024-03-01T00:00:00Z''))) = Inr b)"
proof -
  note t = panel_needs_update_fail_open[OF panel_137_id panel_137_version_created,
      of _ "[''data'']" False]
  have r1: "read_version_file (marker_world (File '' '')) (version_file_of [''data''] ''137'')
              = Inr []"
    by (simp add: read_marker_world strip_def isspace_def)
  have r2: "read_version_file (marker_world (File ''yesterday''))
              (version_file_of [''data''] ''137'') = Inr ''yesterday''"
    by (simp add: read_marker_world strip_def isspace_def)
  have p: "fromisoformat (replace (CHR ''Z'') ''+00:00'' ''yesterday'') = None"
    by (simp add: fromisoformat_def replace_def parse_isoformat_date_def)
  have 1: "fst (panel_needs_update panel_137 [''data''] False fresh_world) = Inr True"
    using t[of fresh_world] fresh_world_no_marker by simp
  have 2: "fst (panel_needs_update panel_137 [''data''] False (marker_world (File '' '')))
             = Inr True"
    using t[of "marker_world (File '' '')"] r1 by simp
  have 3: "fst (panel_needs_update panel_137 [''data''] False
                  (marker_world (File ''yesterday''))) = Inr True"
    using t[of "marker_world (File ''yesterday'')"] r2 p by simp
  have 4: "panel_needs_update panel_137 [''data''] False (sealed_world [''data''])
             = (Inl OSError, sealed_world [''data''])"
    using t[of "sealed_world [''data'']"] sealed_world_137 by simp
  have 5: "\<exists>b. fst (panel_needs_update panel_137 [''data''] False
                  (marker_world (File ''2024-03-01T00:00:00Z''))) = Inr b"
    using t[of "marker_world (File ''2024-03-01T00:00:00Z'')"]
      exists_marker_world[of "File ''2024-03-01T00:00:00Z''"] by blast
  show ?thesis using 1 2 3 4 5 by simp
qed

text \<open>The claim as stated fails where the existence test itself raises. The entity with
  the 256 digit id has no marker stored, and the check on it raises \<open>OSError\<close>
  instead of answering true; so does the check on panel 137 in the data folder that may
  not be searched.\<close>

theorem panel_needs_update_raises_counterexample:
  "fs long_name_world (version_file_of [''data''] (replicate 256 (CHR ''1''))) = None
   \<and> panel_long ''id'' = Some (replicate 256 (CHR ''1''))
   \<and> panel_needs_update panel_long [''data''] False long_name_world
       = (Inl OSError, long_name_world)
   \<and> panel_needs_update panel_137 [''data''] False (sealed_world [''data''])
       = (Inl OSError, sealed_world [''data''])"
proof (intro conjI)
  show "fs long_name_world (version_file_of [''data''] (replicate 256 (CHR ''1''))) = None"
    by (simp add: long_name_world_def version_file_of_def)
  show "panel_long ''id'' = Some (replicate 256 (CHR ''1''))"
    by (simp add: panel_long_def)
  show "panel_needs_update panel_long [''data''] False long_name_world
       = (Inl OSError, long_name_world)"
    by (simp add: panel_needs_update_def panel_long_def path_exists_def long_name_world_def
        version_file_of_def)
  show "panel_needs_update panel_137 [''data''] False (sealed_world [''data''])
       = (Inl OSError, sealed_world [''data''])"
    using sealed_world_137
    by (simp add: panel_needs_update_def panel_137_id panel_137_version_created)
qed

section \<open>Writing and reading a version marker\<close>

lemma universal_newlines_id: "CHR 0x0D \<notin> set s \<Longrightarrow> universal_newlines s = s"
  by (induction s rule: universal_newlines.induct) auto

lemma strip_id:
  assumes "s = [] \<or> (\<not> isspace (hd s) \<and> \<not> isspace (last s))"
  shows "strip s = s"
proof (cases "s = []")
  case True
  then show ?thesis by (simp add: strip_def)
next
  case False
  then have h: "\<not> isspace (hd s)" and l: "\<not> isspace (last s)" using assms by auto
  have 1: "dropWhile isspace s = s" using h False by (cases s) auto
  have 2: "dropWhile isspace (rev s) = rev s"
    using l False by (cases "rev s") (auto simp: last_rev[symmetric] hd_rev)
  show ?thesis by (simp add: strip_def 1 2)
qed

lemma write_text_fs:
  "write_text p s w = Inr w' \<Longrightarrow>
   fs w' = (fs w)(p \<mapsto> File s) \<and> stat_error w' = stat_error w \<and> \<not> stat_error w p"
  by (auto simp: write_text_def split: if_splits option.splits node.splits)

lemma update_writes_marker:
  assumes "panel ''id'' = Some i" and "panel ''version_created'' = Some v"
    and "update_panel_version_tracking df panel w = (Inr u, w')"
  shows "fs w' (version_file_of df i) = Some (File v) \<and> \<not> stat_error w' (version_file_of df i)"
  using assms
  by (auto simp: update_panel_version_tracking_def split: sum.splits dest!: write_text_fs)

text \<open>What the read of lines 133 and 134 returns after a write, for any string written:
  the string stripped, with its line ends translated.\<close>

lemma marker_read_back:
  assumes "panel ''id'' = Some panel_id" and "panel ''version_created'' = Some version_created"
    and "update_panel_version_tracking data_folder panel w = (Inr u, w')"
  shows "read_version_file w' (version_file_of data_folder panel_id)
           = Inr (strip (universal_newlines version_created))"
  using update_writes_marker[OF assms]
  by (simp add: read_version_file_def read_text_def)

text \<open>
  Claim C7. After \<open>update_panel_version_tracking\<close> has written the marker of an
  entity, the file of that id holds the written value and nothing of what was stored
  before, and reading the marker of the same id (lines 133 and 134) returns the written
  value exactly. A timestamp value is a string without whitespace at either end and
  without carriage return: every ISO-8601 timestamp is one, and so is every version
  marker the script writes, which it has read from the catalog in text mode and stripped
  (line 102).
\<close>

theorem marker_round_trip:
  assumes "panel ''id'' = Some panel_id" and "panel ''version_created'' = Some version_created"
    and "update_panel_version_tracking data_folder panel w = (Inr u, w')"
    and "CHR 0x0D \<notin> set version_created"
    and "version_created = []
           \<or> (\<not> isspace (hd version_created) \<and> \<not> isspace (last version_created))"
  shows "read_version_file w' (version_file_of data_folder panel_id) = Inr version_created
       \<and> fs w' (version_file_of data_folder panel_id) = Some (File version_created)"
proof -
  have "read_version_file w' (version_file_of data_folder panel_id)
           = Inr (strip (universal_newlines version_created))"
    using assms(1-3) by (rule marker_read_back)
  then show ?thesis
    using update_writes_marker[OF assms(1-3)] assms(4,5)
    by (simp add: universal_newlines_id strip_id)
qed

lemma update_fresh:
  "update_panel_version_tracking [''data''] (panel_137(''version_created'' \<mapsto> v)) fresh_world
   = (Inr (), log_message (''Updated version tracking for panel 137 to '' @ v) INFO
        (fresh_world\<lparr>fs := [[''data''] \<mapsto> Dir, [''data'', ''panels''] \<mapsto> Dir,
            [''data'', ''panels'', ''137''] \<mapsto> Dir,
            [''data'', ''panels'', ''137'', ''version_created.txt''] \<mapsto> File v]\<rparr>))"
  by (simp add: update_panel_version_tracking_def panel_137_def mkdir_def fresh_world_def
      write_text_def version_file_of_def)

lemma update_marker:
  "fst (update_panel_version_tracking [''data''] panel_137 (marker_world n))
   = (if n = Dir \<or> n = Locked then Inl OSError else Inr ())"
  by (cases n)
     (simp_all add: update_panel_version_tracking_def panel_137_def mkdir_def marker_world_def
      write_text_def version_file_of_def)

text \<open>The marker of panel 137 written into a data folder without any marker, and into
  one that holds an older marker.\<close>

theorem marker_round_trip_witness:
  "read_version_file
     (snd (update_panel_version_tracking [''data''] panel_137 fresh_world))
     (version_file_of [''data''] ''137'') = Inr ''2024-03-01T00:00:00Z''
   \<and> read_version_file (marker_world (File ''2024-02-15T00:00:00Z''))
       (version_file_of [''data''] ''137'') = Inr ''2024-02-15T00:00:00Z''
   \<and> read_version_file
       (snd (update_panel_version_tracking [''data''] panel_137
               (marker_world (File ''2024-02-15T00:00:00Z''))))
       (version_file_of [''data''] ''137'') = Inr ''2024-03-01T00:00:00Z''"
proof (intro conjI)
  have u: "update_panel_version_tracking [''data''] panel_137 fresh_world
      = (Inr (), snd (update_panel_version_tracking [''data''] panel_137 fresh_world))"
    using update_fresh[of "''2024-03-01T00:00:00Z''"] by (simp add: panel_137_def)
  show "read_version_file
     (snd (update_panel_version_tracking [''data''] panel_137 fresh_world))
     (version_file_of [''data''] ''137'') = Inr ''2024-03-01T00:00:00Z''"
    using marker_round_trip[OF panel_137_id panel_137_version_created u, THEN conjunct1]
    by (simp add: isspace_def)
  show "read_version_file (marker_world (File ''2024-02-15T00:00:00Z''))
       (version_file_of [''data''] ''137'') = Inr ''2024-02-15T00:00:00Z''"
    by (simp add: read_marker_world strip_def isspace_def)
  have "fst (update_panel_version_tracking [''data''] panel_137
               (marker_world (File ''2024-02-15T00:00:00Z''))) = Inr ()"
    by (simp add: update_marker)
  then have v: "update_panel_version_tracking [''data''] panel_137
               (marker_world (File ''2024-02-15T00:00:00Z''))
      = (Inr (), snd (update_panel_version_tracking [''data''] panel_137
               (marker_world (File ''2024-02-15T00:00:00Z''))))"
    by (metis prod.collapse)
  show "read_version_file
       (snd (update_panel_version_tracking [''data''] panel_137
               (marker_world (File ''2024-02-15T00:00:00Z''))))
       (version_file_of [''data''] ''137'') = Inr ''2024-03-01T00:00:00Z''"
    using marker_round_trip[OF panel_137_id panel_137_version_created v, THEN conjunct1]
    by (simp add: isspace_def)
qed

section \<open>The catalog loader\<close>

lemma isdigit_nonempty: "isdigit s \<Longrightarrow> s \<noteq> []"
  by (simp add: isdigit_def)

lemma isdigit_Nil [simp]: "\<not> isdigit []"
  by (simp add: isdigit_def)

lemma read_row_panel:
  "fst (read_row n r panels w) = panels @ (case row_panel r of None \<Rightarrow> [] | Some p \<Rightarrow> [p])"
  by (auto simp: read_row_def parse_row_def build_panel_def row_panel_def py_strip_def
      isdigit_nonempty split: pyval.splits)

lemma read_rows_panels:
  "fst (read_rows n rows panels w) = panels @ List.map_filter row_panel rows"
proof (induction rows arbitrary: n panels w)
  case Nil
  then show ?case by simp
next
  case (Cons r rows)
  obtain ps w1 where rr: "read_row n r panels w = (ps, w1)"
    by (cases "read_row n r panels w")
  then have ps: "ps = panels @ (case row_panel r of None \<Rightarrow> [] | Some p \<Rightarrow> [p])"
    using read_row_panel[of n r panels w] by simp
  show ?case using rr ps Cons.IH[of "Suc n" ps w1]
    by (simp split: option.splits)
qed

text \<open>
  Claim C9, as amended. \<open>read_panel_data\<close> returns, in the order of the rows, one
  panel for each row that \<open>row_panel\<close> accepts, and nothing for any other row. A
  row is accepted when its id field, stripped, is not empty and passes Python's
  \<open>isdigit\<close> (the decimal digits, and also digit characters such as the superscript
  two), and its name, version and version\_created fields are strings: a row shorter
  than the header holds \<open>None\<close> there and is skipped with a warning.
\<close>

theorem read_panel_data_rows:
  assumes "read_text w (data_folder @ [''panel_list.tsv'']) = Inr content"
  shows "fst (read_panel_data reader data_folder w)
       = Inr (List.map_filter row_panel (reader content))"
proof -
  have "path_exists w (data_folder @ [''panel_list.tsv'']) = Inr True"
    using assms by (rule read_text_exists)
  then show ?thesis
    using assms read_rows_panels[of 2 "reader content" "[]" w]
    by (cases "read_rows 2 (reader content) [] w") (simp add: read_panel_data_def Let_def)
qed

lemma row_panel_short: "row_panel short_row = None"
  by (simp add: row_panel_def short_row_def row_get_def)

lemma row_panel_superscript:
  "row_panel superscript_row = Some [''id'' \<mapsto> [CHR 0xB2], ''name'' \<mapsto> ''Two'',
     ''version'' \<mapsto> ''0.1'', ''version_created'' \<mapsto> ''2024-03-01T00:00:00Z'']"
  by (simp add: row_panel_def superscript_row_def row_get_def strip_def isspace_def isdigit_def
      isdigit_char_def is_decimal_def)

theorem read_panel_data_rows_witness:
  "fst (read_panel_data (\<lambda>content. [short_row, superscript_row]) [''data'']
          (catalog_world (File ''id'')))
     = Inr [[''id'' \<mapsto> [CHR 0xB2], ''name'' \<mapsto> ''Two'', ''version'' \<mapsto> ''0.1'',
             ''version_created'' \<mapsto> ''2024-03-01T00:00:00Z'']]"
proof -
  have r: "read_text (catalog_world (File ''id'')) ([''data''] @ [''panel_list.tsv'']) = Inr ''id''"
    by (simp add: read_text_def catalog_world_def)
  show ?thesis
    using read_panel_data_rows[OF r, of "\<lambda>content. [short_row, superscript_row]"]
    by (simp add: row_panel_short row_panel_superscript)
qed

lemma read_row_short:
  "read_row n short_row panels w
     = (panels, log_message (''Error parsing line '' @ str_nat n @ '': AttributeError'') WARNING w)"
  by (simp add: read_row_def parse_row_def build_panel_def short_row_def row_get_def py_strip_def
      strip_def isspace_def isdigit_def isdigit_char_def is_decimal_def str_error_def)

lemma read_row_superscript:
  "read_row n superscript_row panels w
     = (panels @ [[''id'' \<mapsto> [CHR 0xB2], ''name'' \<mapsto> ''Two'', ''version'' \<mapsto> ''0.1'',
                  ''version_created'' \<mapsto> ''2024-03-01T00:00:00Z'']], w)"
  by (simp add: read_row_def parse_row_def build_panel_def superscript_row_def row_get_def
      py_strip_def strip_def isspace_def isdigit_def isdigit_char_def is_decimal_def)

text \<open>The claim as stated fails on a catalog of two rows: the short row with the
  decimal id \<open>137\<close> is left out, and the row whose id is the superscript two, which
  is no decimal digit, is returned.\<close>

theorem read_panel_data_rows_counterexample:
  "short_row ''id'' = Some (PyStr ''137'') \<and> list_all is_decimal (strip ''137'')
   \<and> superscript_row ''id'' = Some (PyStr [CHR 0xB2]) \<and> \<not> list_all is_decimal (strip [CHR 0xB2])
   \<and> map_sum id (map (\<lambda>p. p ''id''))
        (fst (read_panel_data (\<lambda>content. [short_row, superscript_row]) [''data'']
                (catalog_world (File ''id''))))
      = Inr [Some [CHR 0xB2]]"
proof -
  have "fst (read_panel_data (\<lambda>content. [short_row, superscript_row]) [''data'']
                (catalog_world (File ''id'')))
      = Inr [[''id'' \<mapsto> [CHR 0xB2], ''name'' \<mapsto> ''Two'', ''version'' \<mapsto> ''0.1'',
              ''version_created'' \<mapsto> ''2024-03-01T00:00:00Z'']]"
    by (simp add: read_panel_data_def path_exists_def read_text_def catalog_world_def
        read_row_short read_row_superscript)
  then show ?thesis
    by (simp add: short_row_def superscript_row_def strip_def isspace_def is_decimal_def)
qed


section \<open>Storage that cannot be read\<close>

text \<open>The two ways a read can fail. The existence tests of lines 128 and 85 stand before
  the \<open>try\<close> statements, so their exceptions leave \<open>panel_needs_update\<close> and
  \<open>read_panel_data\<close>; the exceptions of \<open>open\<close> and \<open>read\<close> are caught.\<close>

lemma panel_needs_update_stat_fails:
  assumes "panel ''id'' = Some panel_id" and "panel ''version_created'' = Some incoming"
    and "path_exists w (version_file_of data_folder panel_id) = Inl e"
  shows "panel_needs_update panel data_folder False w = (Inl e, w)"
  using assms by (simp add: panel_needs_update_def)

lemma panel_needs_update_unreadable:
  assumes "panel ''id'' = Some panel_id" and "panel ''version_created'' = Some incoming"
    and "path_exists w (version_file_of data_folder panel_id) = Inr True"
    and "read_text w (version_file_of data_folder panel_id) = Inl e"
  shows "panel_needs_update panel data_folder False w
       = (Inr True, log_message (''Error reading/parsing version file for panel '' @ panel_id
                                   @ '', will download: '' @ str_error e) WARNING w)"
  using assms by (simp add: panel_needs_update_def check_version_def read_version_file_def)

lemma read_panel_data_stat_fails:
  assumes "path_exists w (data_folder @ [''panel_list.tsv'']) = Inl e"
  shows "read_panel_data reader data_folder w = (Inl e, w)"
  using assms by (simp add: read_panel_data_def)

lemma read_panel_data_unreadable:
  assumes "path_exists w (data_folder @ [''panel_list.tsv'']) = Inr True"
    and "read_text w (data_folder @ [''panel_list.tsv'']) = Inl e"
  shows "read_panel_data reader data_folder w
       = (Inr [], log_message (''Error reading panel list file: '' @ str_error e) ERROR w)"
  using assms by (simp add: read_panel_data_def)

lemma main_stat_fails:
  assumes "os_path_exists w data_folder"
    and "path_exists w (data_folder @ [''panel_list.tsv'']) = Inl e"
  shows "fst (main env data_folder force w) = 1
       \<and> last (console (snd (main env data_folder force w)))
           = (ERROR, ''Script execution failed: '' @ str_error e)"
  using assms by (simp add: main_def Let_def read_panel_data_def)

lemma main_unreadable:
  assumes "os_path_exists w data_folder"
    and "path_exists w (data_folder @ [''panel_list.tsv'']) = Inr True"
    and "read_text w (data_folder @ [''panel_list.tsv'']) = Inl e"
  shows "fst (main env data_folder force w) = 1
       \<and> last (console (snd (main env data_folder force w)))
           = (ERROR, ''No panels found to process'')"
  using assms by (simp add: main_def Let_def read_panel_data_def)

text \<open>The catalog loader changes no file, and what it returns does not depend on what
  has been printed.\<close>

lemma read_row_frame:
  "fs (snd (read_row n r ps w)) = fs w \<and> stat_error (snd (read_row n r ps w)) = stat_error w"
  by (auto simp: read_row_def parse_row_def split: sum.splits if_splits)

lemma read_rows_frame:
  "fs (snd (read_rows n rows ps w)) = fs w
   \<and> stat_error (snd (read_rows n rows ps w)) = stat_error w"
proof (induction rows arbitrary: n ps w)
  case Nil
  then show ?case by simp
next
  case (Cons r rows)
  obtain ps1 w1 where rr: "read_row n r ps w = (ps1, w1)"
    by (cases "read_row n r ps w")
  then have "fs w1 = fs w \<and> stat_error w1 = stat_error w"
    using read_row_frame[of n r ps w] by simp
  then show ?case using rr Cons.IH[of "Suc n" ps1 w1] by simp
qed

lemma read_panel_data_frame:
  "fs (snd (read_panel_data reader df w)) = fs w
   \<and> stat_error (snd (read_panel_data reader df w)) = stat_error w"
proof (cases "path_exists w (df @ [''panel_list.tsv''])")
  case (Inl e)
  then show ?thesis by (simp add: read_panel_data_def)
next
  case (Inr b)
  show ?thesis
  proof (cases "read_text w (df @ [''panel_list.tsv''])")
    case (Inl e)
    then show ?thesis using Inr by (cases b) (simp_all add: read_panel_data_def)
  next
    case r: (Inr content)
    obtain ps w1 where rr: "read_rows 2 (reader content) [] w = (ps, w1)"
      by (cases "read_rows 2 (reader content) [] w")
    then have "fs w1 = fs w \<and> stat_error w1 = stat_error w"
      using read_rows_frame[of 2 "reader content" "[]" w] by simp
    then show ?thesis using Inr r rr by (cases b) (simp_all add: read_panel_data_def)
  qed
qed

lemma read_panel_data_fst:
  "fst (read_panel_data reader df w) =
     (case path_exists w (df @ [''panel_list.tsv'']) of
        Inl e \<Rightarrow> Inl e
      | Inr b \<Rightarrow>
          (case read_text w (df @ [''panel_list.tsv'']) of
             Inl e \<Rightarrow> Inr []
           | Inr content \<Rightarrow>
               if b then Inr (List.map_filter row_panel (reader content)) else Inr []))"
proof (cases "path_exists w (df @ [''panel_list.tsv''])")
  case (Inl e)
  then show ?thesis by (simp add: read_panel_data_def)
next
  case (Inr b)
  show ?thesis
  proof (cases "read_text w (df @ [''panel_list.tsv''])")
    case (Inl e)
    then show ?thesis using Inr by (cases b) (simp_all add: read_panel_data_def)
  next
    case r: (Inr content)
    obtain ps w1 where rr: "read_rows 2 (reader content) [] w = (ps, w1)"
      by (cases "read_rows 2 (reader content) [] w")
    then have "ps = List.map_filter row_panel (reader content)"
      using read_rows_panels[of 2 "reader content" "[]" w] by simp
    then show ?thesis using Inr r rr by (cases b) (simp_all add: read_panel_data_def)
  qed
qed

text \<open>An exception of the staleness check on a panel of the catalog ends \<open>main\<close>
  through the \<open>except\<close> of line 287, with exit status 1.\<close>

lemma main_plan_raises:
  assumes "os_path_exists w data_folder"
    and "fst (read_panel_data (csv_reader env) data_folder w) = Inr panels"
    and "p \<in> set panels"
    and "fst (panel_needs_update p data_folder force w) = Inl e"
  shows "fst (main env data_folder force w) = 1
       \<and> (\<exists>e'. last (console (snd (main env data_folder force w)))
                  = (ERROR, ''Script execution failed: '' @ str_error e'))"
proof -
  define wu where "wu = log_message (''Using data folder: '' @ str_path data_folder) INFO
      (log_message ''Starting PanelApp Australia incremental gene extraction...'' INFO w)"
  obtain r w1 where rp: "read_panel_data (csv_reader env) data_folder wu = (r, w1)"
    by (cases "read_panel_data (csv_reader env) data_folder wu")
  have "path_exists wu (data_folder @ [''panel_list.tsv''])
          = path_exists w (data_folder @ [''panel_list.tsv''])"
    "read_text wu (data_folder @ [''panel_list.tsv''])
          = read_text w (data_folder @ [''panel_list.tsv''])"
    by (simp_all add: wu_def)
  then have "fst (read_panel_data (csv_reader env) data_folder wu)
      = fst (read_panel_data (csv_reader env) data_folder w)"
    unfolding read_panel_data_fst by (simp split: sum.splits)
  then have r: "r = Inr panels" using rp assms(2) by simp
  have fr: "fs w1 = fs w" "stat_error w1 = stat_error w"
    using read_panel_data_frame[of "csv_reader env" data_folder wu] rp
    by (simp_all add: wu_def)
  have ne: "panels \<noteq> []" using assms(3) by auto
  obtain e' where "fst (panels_to_update panels data_folder force w1) = Inl e'"
    using panels_to_update_raises[OF assms(3,4) fr] by auto
  then obtain w2 where pl: "panels_to_update panels data_folder force w1 = (Inl e', w2)"
    by (cases "panels_to_update panels data_folder force w1") auto
  show ?thesis
    using assms(1) rp[unfolded wu_def] r ne pl by (auto simp: main_def Let_def)
qed

text \<open>
  Claim C5, as amended. A failure to read the storage is surfaced as an error in every
  case but one. A failure of the existence test of a marker file (\<open>Path.exists()\<close>
  raising, as for a directory that may not be searched) leaves \<open>panel_needs_update\<close>
  and with it the filtering of the catalog, and \<open>main\<close> ends with the line ``Script
  execution failed'' and exit status 1. A failure of the existence test of the catalog
  file leaves \<open>read_panel_data\<close>, with the same end. A failure to open or read the
  catalog file that exists is caught inside \<open>read_panel_data\<close>, which prints an
  error and returns the empty catalog, and \<open>main\<close> ends with ``No panels found to
  process'' and exit status 1. The exception is a failure to open or read a marker file
  that exists: \<open>panel_needs_update\<close> catches it, prints a warning and answers true,
  so the entity is planned for a refresh and no error is raised.
\<close>

theorem storage_unreadable_handling:
  "(panel ''id'' = Some panel_id \<and> panel ''version_created'' = Some incoming
      \<and> path_exists w (version_file_of data_folder panel_id) = Inl e
    \<longrightarrow> panel_needs_update panel data_folder False w = (Inl e, w)
        \<and> (panel \<in> set panels \<longrightarrow>
             (\<exists>e'. fst (panels_to_update panels data_folder False w) = Inl e'))
        \<and> (panel \<in> set panels \<and> os_path_exists w data_folder
             \<and> fst (read_panel_data (csv_reader env) data_folder w) = Inr panels
           \<longrightarrow> fst (main env data_folder False w) = 1
               \<and> (\<exists>e'. last (console (snd (main env data_folder False w)))
                          = (ERROR, ''Script execution failed: '' @ str_error e'))))
   \<and> (panel ''id'' = Some panel_id \<and> panel ''version_created'' = Some incoming
      \<and> path_exists w (version_file_of data_folder panel_id) = Inr True
      \<and> read_text w (version_file_of data_folder panel_id) = Inl e
    \<longrightarrow> panel_needs_update panel data_folder False w
          = (Inr True, log_message (''Error reading/parsing version file for panel ''
                         @ panel_id @ '', will download: '' @ str_error e) WARNING w))
   \<and> (path_exists w (data_folder @ [''panel_list.tsv'']) = Inl e
    \<longrightarrow> read_panel_data reader data_folder w = (Inl e, w)
        \<and> (os_path_exists w data_folder \<longrightarrow>
             fst (main env data_folder force w) = 1
             \<and> last (console (snd (main env data_folder force w)))
                 = (ERROR, ''Script execution failed: '' @ str_error e)))
   \<and> (path_exists w (data_folder @ [''panel_list.tsv'']) = Inr True
      \<and> read_text w (data_folder @ [''panel_list.tsv'']) = Inl e
    \<longrightarrow> read_panel_data reader data_folder w
          = (Inr [], log_message (''Error reading panel list file: '' @ str_error e) ERROR w)
        \<and> (os_path_exists w data_folder \<longrightarrow>
             fst (main env data_folder force w) = 1
             \<and> last (console (snd (main env data_folder force w)))
                 = (ERROR, ''No panels found to process'')))"
proof -
  have 1: "panel ''id'' = Some panel_id \<and> panel ''version_created'' = Some incoming
      \<and> path_exists w (version_file_of data_folder panel_id) = Inl e
    \<longrightarrow> panel_needs_update panel data_folder False w = (Inl e, w)
        \<and> (panel \<in> set panels \<longrightarrow>
             (\<exists>e'. fst (panels_to_update panels data_folder False w) = Inl e'))
        \<and> (panel \<in> set panels \<and> os_path_exists w data_folder
             \<and> fst (read_panel_data (csv_reader env) data_folder w) = Inr panels
           \<longrightarrow> fst (main env data_folder False w) = 1
               \<and> (\<exists>e'. last (console (snd (main env data_folder False w)))
                          = (ERROR, ''Script execution failed: '' @ str_error e')))"
  proof (intro impI)
    assume a: "panel ''id'' = Some panel_id \<and> panel ''version_created'' = Some incoming
      \<and> path_exists w (version_file_of data_folder panel_id) = Inl e"
    then have r: "panel_needs_update panel data_folder False w = (Inl e, w)"
      using panel_needs_update_stat_fails[of panel panel_id incoming w data_folder e] by simp
    then have f: "fst (panel_needs_update panel data_folder False w) = Inl e"
      by simp
    have p: "panel \<in> set panels \<longrightarrow>
             (\<exists>e'. fst (panels_to_update panels data_folder False w) = Inl e')"
      using panels_to_update_raises[OF _ f refl refl] by blast
    have m: "panel \<in> set panels \<and> os_path_exists w data_folder
             \<and> fst (read_panel_data (csv_reader env) data_folder w) = Inr panels
           \<longrightarrow> fst (main env data_folder False w) = 1
               \<and> (\<exists>e'. last (console (snd (main env data_folder False w)))
                          = (ERROR, ''Script execution failed: '' @ str_error e'))"
      using main_plan_raises[OF _ _ _ f] by blast
    show "panel_needs_update panel data_folder False w = (Inl e, w)
        \<and> (panel \<in> set panels \<longrightarrow>
             (\<exists>e'. fst (panels_to_update panels data_folder False w) = Inl e'))
        \<and> (panel \<in> set panels \<and> os_path_exists w data_folder
             \<and> fst (read_panel_data (csv_reader env) data_folder w) = Inr panels
           \<longrightarrow> fst (main env data_folder False w) = 1
               \<and> (\<exists>e'. last (console (snd (main env data_folder False w)))
                          = (ERROR, ''Script execution failed: '' @ str_error e')))"
      using r p m by (intro conjI)
  qed
  have 2: "panel ''id'' = Some panel_id \<and> panel ''version_created'' = Some incoming
      \<and> path_exists w (version_file_of data_folder panel_id) = Inr True
      \<and> read_text w (version_file_of data_folder panel_id) = Inl e
    \<longrightarrow> panel_needs_update panel data_folder False w
          = (Inr True, log_message (''Error reading/parsing version file for panel ''
                         @ panel_id @ '', will download: '' @ str_error e) WARNING w)"
    using panel_needs_update_unreadable[of panel panel_id incoming w data_folder e] by simp
  have 3: "path_exists w (data_folder @ [''panel_list.tsv'']) = Inl e
    \<longrightarrow> read_panel_data reader data_folder w = (Inl e, w)
        \<and> (os_path_exists w data_folder \<longrightarrow>
             fst (main env data_folder force w) = 1
             \<and> last (console (snd (main env data_folder force w)))
                 = (ERROR, ''Script execution failed: '' @ str_error e))"
    using read_panel_data_stat_fails[of w data_folder e reader]
      main_stat_fails[of w data_folder e env force] by simp
  have 4: "path_exists w (data_folder @ [''panel_list.tsv'']) = Inr True
      \<and> read_text w (data_folder @ [''panel_list.tsv'']) = Inl e
    \<longrightarrow> read_panel_data reader data_folder w
          = (Inr [], log_message (''Error reading panel list file: '' @ str_error e) ERROR w)
        \<and> (os_path_exists w data_folder \<longrightarrow>
             fst (main env data_folder force w) = 1
             \<and> last (console (snd (main env data_folder force w)))
                 = (ERROR, ''No panels found to process''))"
    using read_panel_data_unreadable[of w data_folder e reader]
      main_unreadable[of w data_folder e env force] by simp
  show ?thesis using 1 2 3 4 by (intro conjI)
qed

text \<open>The four cases, on panel 137 and the catalog of the example: a data folder that
  may not be searched, a panels directory that may not be searched under a catalog that
  can be read, a marker file that cannot be read, and a catalog file that cannot be
  read.\<close>

lemma superscript_catalog:
  "fst (read_panel_data (csv_reader offline_env) [''data''] (sealed_world [''data'', ''panels'']))
   = Inr [[''id'' \<mapsto> [CHR 0xB2], ''name'' \<mapsto> ''Two'', ''version'' \<mapsto> ''0.1'',
           ''version_created'' \<mapsto> ''2024-03-01T00:00:00Z'']]"
  by (simp add: read_panel_data_fst path_exists_def read_text_def sealed_world_def
      offline_env_def List.map_filter_simps row_panel_short row_panel_superscript)

theorem storage_unreadable_handling_witness:
  "panel_needs_update panel_137 [''data''] False (sealed_world [''data''])
     = (Inl OSError, sealed_world [''data''])
   \<and> (\<exists>e. fst (panels_to_update [panel_42, panel_137] [''data''] False
                 (sealed_world [''data''])) = Inl e)
   \<and> fst (main offline_env [''data''] False (sealed_world [''data'', ''panels''])) = 1
   \<and> (\<exists>e. last (console (snd (main offline_env [''data''] False
                                  (sealed_world [''data'', ''panels'']))))
             = (ERROR, ''Script execution failed: '' @ str_error e))
   \<and> panel_needs_update panel_137 [''data''] False (marker_world Locked)
     = (Inr True, log_message
          ''Error reading/parsing version file for panel 137, will download: OSError''
          WARNING (marker_world Locked))
   \<and> read_panel_data (csv_reader offline_env) [''data''] (sealed_world [''data''])
     = (Inl OSError, sealed_world [''data''])
   \<and> fst (main offline_env [''data''] False (sealed_world [''data''])) = 1
   \<and> last (console (snd (main offline_env [''data''] False (sealed_world [''data'']))))
       = (ERROR, ''Script execution failed: OSError'')
   \<and> read_panel_data (csv_reader offline_env) [''data''] (catalog_world Locked)
     = (Inr [], log_message ''Error reading panel list file: OSError'' ERROR
                 (catalog_world Locked))
   \<and> fst (main offline_env [''data''] False (catalog_world Locked)) = 1
   \<and> last (console (snd (main offline_env [''data''] False (catalog_world Locked))))
       = (ERROR, ''No panels found to process'')"
proof -
  let ?two = "[''id'' \<mapsto> [CHR 0xB2], ''name'' \<mapsto> ''Two'', ''version'' \<mapsto> ''0.1'',
               ''version_created'' \<mapsto> ''2024-03-01T00:00:00Z'']"
  have s: "path_exists (sealed_world [''data'']) (version_file_of [''data''] ''137'')
             = Inl OSError"
    "path_exists (sealed_world [''data'']) ([''data''] @ [''panel_list.tsv'']) = Inl OSError"
    "os_path_exists (sealed_world [''data'']) [''data'']"
    by (simp_all add: path_exists_def os_path_exists_def sealed_world_def version_file_of_def)
  have p: "path_exists (sealed_world [''data'', ''panels''])
             (version_file_of [''data''] [CHR 0xB2]) = Inl OSError"
    "os_path_exists (sealed_world [''data'', ''panels'']) [''data'']"
    by (simp_all add: path_exists_def os_path_exists_def sealed_world_def version_file_of_def)
  have m: "path_exists (marker_world Locked) (version_file_of [''data''] ''137'') = Inr True"
    "read_text (marker_world Locked) (version_file_of [''data''] ''137'') = Inl OSError"
    by (simp_all add: path_exists_def read_text_def marker_world_def version_file_of_def)
  have c: "path_exists (catalog_world Locked) ([''data''] @ [''panel_list.tsv'']) = Inr True"
    "read_text (catalog_world Locked) ([''data''] @ [''panel_list.tsv'']) = Inl OSError"
    "os_path_exists (catalog_world Locked) [''data'']"
    by (simp_all add: path_exists_def os_path_exists_def read_text_def catalog_world_def)
  have 1: "panel_needs_update panel_137 [''data''] False (sealed_world [''data''])
             = (Inl OSError, sealed_world [''data''])
           \<and> (\<exists>e. fst (panels_to_update [panel_42, panel_137] [''data''] False
                         (sealed_world [''data''])) = Inl e)"
    using storage_unreadable_handling[where panel = panel_137 and panel_id = "''137''"
        and incoming = "''2024-03-01T00:00:00Z''" and w = "sealed_world [''data'']"
        and data_folder = "[''data'']" and e = OSError and panels = "[panel_42, panel_137]",
        THEN conjunct1]
      s(1)
    by (simp add: panel_137_id panel_137_version_created)
  have 2: "fst (main offline_env [''data''] False (sealed_world [''data'', ''panels''])) = 1
   \<and> (\<exists>e. last (console (snd (main offline_env [''data''] False
                                  (sealed_world [''data'', ''panels'']))))
             = (ERROR, ''Script execution failed: '' @ str_error e))"
    using storage_unreadable_handling[where panel = ?two and panel_id = "[CHR 0xB2]"
        and incoming = "''2024-03-01T00:00:00Z''" and w = "sealed_world [''data'', ''panels'']"
        and data_folder = "[''data'']" and e = OSError and panels = "[?two]"
        and env = offline_env, THEN conjunct1]
      p superscript_catalog
    by simp
  have 3: "panel_needs_update panel_137 [''data''] False (marker_world Locked)
     = (Inr True, log_message
          ''Error reading/parsing version file for panel 137, will download: OSError''
          WARNING (marker_world Locked))"
    using storage_unreadable_handling[where panel = panel_137 and panel_id = "''137''"
        and incoming = "''2024-03-01T00:00:00Z''" and w = "marker_world Locked"
        and data_folder = "[''data'']" and e = OSError, THEN conjunct2, THEN conjunct1] m
    by (simp add: panel_137_id panel_137_version_created str_error_def)
  have 4: "read_panel_data (csv_reader offline_env) [''data''] (sealed_world [''data''])
     = (Inl OSError, sealed_world [''data''])
   \<and> fst (main offline_env [''data''] False (sealed_world [''data''])) = 1
   \<and> last (console (snd (main offline_env [''data''] False (sealed_world [''data'']))))
       = (ERROR, ''Script execution failed: OSError'')"
    using storage_unreadable_handling[where w = "sealed_world [''data'']"
        and data_folder = "[''data'']" and e = OSError and reader = "csv_reader offline_env"
        and env = offline_env and force = False,
        THEN conjunct2, THEN conjunct2, THEN conjunct1] s(2,3)
    by (simp add: str_error_def)
  have 5: "read_panel_data (csv_reader offline_env) [''data''] (catalog_world Locked)
     = (Inr [], log_message ''Error reading panel list file: OSError'' ERROR
                 (catalog_world Locked))
   \<and> fst (main offline_env [''data''] False (catalog_world Locked)) = 1
   \<and> last (console (snd (main offline_env [''data''] False (catalog_world Locked))))
       = (ERROR, ''No panels found to process'')"
    using storage_unreadable_handling[where w = "catalog_world Locked"
        and data_folder = "[''data'']" and e = OSError and reader = "csv_reader offline_env"
        and env = offline_env and force = False,
        THEN conjunct2, THEN conjunct2, THEN conjunct2] c
    by (simp add: str_error_def)
  show ?thesis using 1 2 3 4 5 by simp
qed

text \<open>The claim as stated fails for a marker file that exists and cannot be read: the
  check answers true and raises nothing.\<close>

theorem storage_unreadable_counterexample:
  "path_exists (marker_world Locked) (version_file_of [''data''] ''137'') = Inr True
   \<and> read_text (marker_world Locked) (version_file_of [''data''] ''137'') = Inl OSError
   \<and> panel_needs_update panel_137 [''data''] False (marker_world Locked)
     = (Inr True, log_message
          ''Error reading/parsing version file for panel 137, will download: OSError''
          WARNING (marker_world Locked))"
  by (simp add: panel_needs_update_def check_version_def read_version_file_def read_text_def
      path_exists_def marker_world_def version_file_of_def panel_137_def str_error_def)

section \<open>The pagination loops\<close>

lemma requests_get_effect:
  "requests_get env url w = (r, w') \<Longrightarrow>
     fs w' = fs w \<and> stat_error w' = stat_error w \<and> length (sent w') = Suc (length (sent w))"
  by (auto simp: requests_get_def split: json.splits)

lemma write_text_effect:
  "write_text p s w = Inr w' \<Longrightarrow>
     fs w' = (fs w)(p \<mapsto> File s) \<and> stat_error w' = stat_error w \<and> sent w' = sent w"
  by (auto simp: write_text_def split: if_splits option.splits node.splits)

lemma fetch_genes_page_sent:
  "length (sent (snd (fetch_genes_page env pd i page url w))) \<le> Suc (length (sent w))"
proof -
  obtain r w2 where rg: "requests_get env url
      (log_message (''  Downloading genes page '' @ str_nat page @ '' for panel ''
                     @ i @ ''...'') INFO w) = (r, w2)"
    by (cases "requests_get env url (log_message (''  Downloading genes page '' @ str_nat page
          @ '' for panel '' @ i @ ''...'') INFO w)")
  have "length (sent w2) \<le> Suc (length (sent w))"
    using requests_get_effect[OF rg] by simp
  then show ?thesis using rg
    by (auto simp: fetch_genes_page_def split: sum.splits dest!: write_text_effect)
qed

lemma genes_loop_sent:
  "length (sent (snd (genes_loop env pd i page url w)))
     \<le> length (sent w) + max 1 (101 - page)"
proof (induction env pd i page url w rule: genes_loop.induct)
  case (1 env pd i page url w)
  show ?case
  proof (cases "py_truthy url \<and> url \<noteq> JStr ''null''")
    case False
    then show ?thesis by (subst genes_loop.simps) auto
  next
    case True
    obtain r w1 where f: "fetch_genes_page env pd i page url w = (r, w1)"
      by (cases "fetch_genes_page env pd i page url w")
    have w1: "length (sent w1) \<le> Suc (length (sent w))"
      using fetch_genes_page_sent[of env pd i page url w] f by simp
    show ?thesis
    proof (cases r)
      case (Inl e)
      then show ?thesis using True f w1 by (subst genes_loop.simps) simp
    next
      case (Inr url')
      show ?thesis
      proof (cases "Suc page > 100")
        case limit: True
        then show ?thesis using True f w1 Inr by (subst genes_loop.simps) simp
      next
        case False
        have "length (sent (snd (genes_loop env pd i (Suc page) url' w1)))
            \<le> length (sent w1) + max 1 (101 - Suc page)"
          using "1.IH"[OF True f[symmetric] Inr False] .
        then show ?thesis using True f w1 Inr False by (subst genes_loop.simps) simp
      qed
    qed
  qed
qed

lemma mkdir_sent: "mkdir p w = Inr w' \<Longrightarrow> sent w' = sent w \<and> stat_error w' = stat_error w"
  by (auto simp: mkdir_def split: sum.splits)

lemma download_panel_genes_sent:
  "length (sent (snd (download_panel_genes env df panel w))) \<le> length (sent w) + 100"
proof (cases "panel ''id''")
  case None
  then show ?thesis by (simp add: download_panel_genes_def)
next
  case (Some i)
  show ?thesis
  proof (cases "panel ''name''")
    case None
    then show ?thesis using Some by (simp add: download_panel_genes_def)
  next
    case name: (Some n)
    let ?w0 = "log_message (''Extracting genes for panel '' @ i @ '' ('' @ n @ '')...'') INFO w"
    show ?thesis
    proof (cases "mkdir (df @ [''panels'', i, ''genes'', ''json'']) ?w0")
      case (Inl e)
      then show ?thesis using Some name by (simp add: download_panel_genes_def)
    next
      case (Inr w1)
      then have w1: "sent w1 = sent w" using mkdir_sent[OF Inr] by simp
      obtain r w2 where g: "genes_loop env (df @ [''panels'', i, ''genes'', ''json'']) i 1
          (JStr (gene_url i)) w1 = (r, w2)"
        by (cases "genes_loop env (df @ [''panels'', i, ''genes'', ''json'']) i 1
          (JStr (gene_url i)) w1")
      have "length (sent w2) \<le> length (sent w1) + 100"
        using genes_loop_sent[of env "df @ [''panels'', i, ''genes'', ''json'']" i 1
            "JStr (gene_url i)" w1] g by simp
      then show ?thesis using Some name Inr g w1
        by (simp add: download_panel_genes_def split: sum.splits option.splits)
    qed
  qed
qed

lemma fetch_panels_page_sent:
  "length (sent (snd (fetch_panels_page env out page url w))) \<le> Suc (length (sent w))"
proof -
  obtain r w2 where rg: "requests_get env url
      (log_message (''Downloading page '' @ str_nat page @ ''...'') INFO w) = (r, w2)"
    by (cases "requests_get env url
      (log_message (''Downloading page '' @ str_nat page @ ''...'') INFO w)")
  have "length (sent w2) \<le> Suc (length (sent w))"
    using requests_get_effect[OF rg] by simp
  then show ?thesis using rg
    by (auto simp: fetch_panels_page_def split: sum.splits dest!: write_text_effect)
qed

lemma panels_loop_sent:
  "length (sent (snd (panels_loop env out page url w)))
     \<le> length (sent w) + max 1 (1001 - page)"
proof (induction env out page url w rule: panels_loop.induct)
  case (1 env out page url w)
  show ?case
  proof (cases "py_truthy url \<and> url \<noteq> JStr ''null''")
    case False
    then show ?thesis by (subst panels_loop.simps) auto
  next
    case True
    obtain r w1 where f: "fetch_panels_page env out page url w = (r, w1)"
      by (cases "fetch_panels_page env out page url w")
    have w1: "length (sent w1) \<le> Suc (length (sent w))"
      using fetch_panels_page_sent[of env out page url w] f by simp
    show ?thesis
    proof (cases r)
      case (Inl e)
      then show ?thesis using True f w1 by (subst panels_loop.simps) simp
    next
      case (Inr url')
      show ?thesis
      proof (cases "Suc page > 1000")
        case limit: True
        then show ?thesis using True f w1 Inr by (subst panels_loop.simps) simp
      next
        case False
        have "length (sent (snd (panels_loop env out (Suc page) url' w1)))
            \<le> length (sent w1) + max 1 (1001 - Suc page)"
          using "1.IH"[OF True f[symmetric] Inr False] .
        then show ?thesis using True f w1 Inr False by (subst panels_loop.simps) simp
      qed
    qed
  qed
qed

lemma download_panels_sent:
  "length (sent (snd (download_panels env out w))) \<le> length (sent w) + 1000"
proof -
  let ?w0 = "log_message ''Starting panel data extraction...'' INFO w"
  let ?u = "JStr (''https://panelapp-aus.org/api'' @ ''/'' @ ''v1'' @ ''/panels/'')"
  obtain r w1 where p: "panels_loop env out 1 ?u ?w0 = (r, w1)"
    by (cases "panels_loop env out 1 ?u ?w0")
  have "length (sent w1) \<le> length (sent ?w0) + 1000"
    using panels_loop_sent[of env out 1 ?u ?w0] p by simp
  then show ?thesis using p
    by (simp add: download_panels_def split: sum.splits)
qed

text \<open>
  Claim C10. Every pagination loop ends, whatever next links the server supplies: the
  model of each loop is a total function, and every turn of a loop begins with one call
  of \<open>requests.get\<close>, of which \<open>download_panel_genes\<close> makes at most 100 and
  \<open>download_panels\<close> at most 1000.
\<close>

theorem pagination_bounded:
  "length (sent (snd (download_panel_genes env data_folder panel w))) \<le> length (sent w) + 100
   \<and> length (sent (snd (download_panels env output_dir w))) \<le> length (sent w) + 1000"
  using download_panel_genes_sent download_panels_sent by blast

section \<open>Markers are written after a successful refresh only\<close>

lemma mkdir_parents_frame:
  "mkdir_parents refused pre p m = Inr m' \<Longrightarrow>
     m' q = m q \<or> (\<exists>k. 0 < k \<and> k \<le> length p \<and> q = pre @ take k p)"
proof (induction p arbitrary: pre m)
  case Nil
  then show ?case by simp
next
  case (Cons c cs)
  have nr: "\<not> refused (pre @ [c])"
    using Cons.prems by (auto split: if_splits)
  show ?case
  proof (cases "m (pre @ [c])")
    case None
    then have "mkdir_parents refused (pre @ [c]) cs (m(pre @ [c] \<mapsto> Dir)) = Inr m'"
      using Cons.prems nr by simp
    from Cons.IH[OF this]
    consider "m' q = (m(pre @ [c] \<mapsto> Dir)) q"
      | k where "0 < k" "k \<le> length cs" "q = (pre @ [c]) @ take k cs"
      by blast
    then show ?thesis
    proof cases
      case 1
      show ?thesis
      proof (cases "q = pre @ [c]")
        case True
        then have "q = pre @ take 1 (c # cs)" by simp
        then show ?thesis by (intro disjI2 exI[of _ 1]) simp
      next
        case False
        then show ?thesis using 1 by simp
      qed
    next
      case 2
      then have "q = pre @ take (Suc k) (c # cs)" by simp
      then show ?thesis using 2 by (intro disjI2 exI[of _ "Suc k"]) simp
    qed
  next
    case (Some n)
    then have n: "n = Dir" and rec: "mkdir_parents refused (pre @ [c]) cs m = Inr m'"
      using Cons.prems nr by (auto split: node.splits)
    from Cons.IH[OF rec]
    consider "m' q = m q"
      | k where "0 < k" "k \<le> length cs" "q = (pre @ [c]) @ take k cs"
      by blast
    then show ?thesis
    proof cases
      case 1
      then show ?thesis by simp
    next
      case 2
      then have "q = pre @ take (Suc k) (c # cs)" by simp
      then show ?thesis using 2 by (intro disjI2 exI[of _ "Suc k"]) simp
    qed
  qed
qed

text \<open>No directory is made where the version file of a panel is or would be: the
  directories made for the gene pages and for the marker itself lie elsewhere.\<close>

lemma mkdir_genes_marker:
  assumes "mkdir (df @ [''panels'', i, ''genes'', ''json'']) w = Inr w'"
  shows "fs w' (version_file_of df j) = fs w (version_file_of df j)"
proof -
  from assms obtain m' where
    m: "mkdir_parents (stat_error w) [] (df @ [''panels'', i, ''genes'', ''json'']) (fs w)
          = Inr m'"
    and w': "fs w' = m'"
    by (auto simp: mkdir_def split: sum.splits)
  have "\<not> (\<exists>k. 0 < k \<and> k \<le> length (df @ [''panels'', i, ''genes'', ''json''])
          \<and> version_file_of df j = [] @ take k (df @ [''panels'', i, ''genes'', ''json'']))"
  proof
    assume "\<exists>k. 0 < k \<and> k \<le> length (df @ [''panels'', i, ''genes'', ''json''])
          \<and> version_file_of df j = [] @ take k (df @ [''panels'', i, ''genes'', ''json''])"
    then obtain k where k: "version_file_of df j = take k (df @ [''panels'', i, ''genes'', ''json''])"
      by auto
    then have "length (version_file_of df j) = min k (length df + 4)" by simp
    then have "k = length df + 3" by (simp add: version_file_of_def)
    then show False using k by (simp add: version_file_of_def)
  qed
  then show ?thesis using mkdir_parents_frame[OF m, of "version_file_of df j"] w' by auto
qed

lemma mkdir_panel_marker:
  assumes "mkdir (df @ [''panels'', i]) w = Inr w'"
  shows "fs w' (version_file_of df j) = fs w (version_file_of df j)"
proof -
  from assms obtain m' where
    m: "mkdir_parents (stat_error w) [] (df @ [''panels'', i]) (fs w) = Inr m'"
    and w': "fs w' = m'"
    by (auto simp: mkdir_def split: sum.splits)
  have "\<not> (\<exists>k. 0 < k \<and> k \<le> length (df @ [''panels'', i])
          \<and> version_file_of df j = [] @ take k (df @ [''panels'', i]))"
  proof
    assume "\<exists>k. 0 < k \<and> k \<le> length (df @ [''panels'', i])
          \<and> version_file_of df j = [] @ take k (df @ [''panels'', i])"
    then obtain k where k: "version_file_of df j = take k (df @ [''panels'', i])"
      by auto
    then have "length (version_file_of df j) = min k (length df + 2)" by simp
    then show False by (simp add: version_file_of_def)
  qed
  then show ?thesis using mkdir_parents_frame[OF m, of "version_file_of df j"] w' by auto
qed

lemma fetch_genes_page_fs:
  assumes "length q \<noteq> Suc (length pd)"
  shows "fs (snd (fetch_genes_page env pd i page url w)) q = fs w q"
proof -
  obtain r w2 where rg: "requests_get env url
      (log_message (''  Downloading genes page '' @ str_nat page @ '' for panel ''
                     @ i @ ''...'') INFO w) = (r, w2)"
    by (cases "requests_get env url (log_message (''  Downloading genes page '' @ str_nat page
          @ '' for panel '' @ i @ ''...'') INFO w)")
  have w2: "fs w2 = fs w" using requests_get_effect[OF rg] by simp
  have wr: "\<And>name s w3. write_text (pd @ [name]) s w2 = Inr w3 \<Longrightarrow> fs w3 q = fs w q"
    using write_text_effect w2 assms by fastforce
  show ?thesis using rg w2
    by (auto simp: fetch_genes_page_def split: sum.splits dest: wr)
qed

lemma genes_loop_fs:
  assumes "length q \<noteq> Suc (length pd)"
  shows "fs (snd (genes_loop env pd i page url w)) q = fs w q"
  using assms
proof (induction env pd i page url w rule: genes_loop.induct)
  case (1 env pd i page url w)
  show ?case
  proof (cases "py_truthy url \<and> url \<noteq> JStr ''null''")
    case False
    then show ?thesis by (subst genes_loop.simps) auto
  next
    case True
    obtain r w1 where f: "fetch_genes_page env pd i page url w = (r, w1)"
      by (cases "fetch_genes_page env pd i page url w")
    have w1: "fs w1 q = fs w q"
      using fetch_genes_page_fs[of q pd env i page url w] f "1.prems" by simp
    show ?thesis
    proof (cases r)
      case (Inl e)
      then show ?thesis using True f w1 by (subst genes_loop.simps) simp
    next
      case (Inr url')
      show ?thesis
      proof (cases "Suc page > 100")
        case limit: True
        then show ?thesis using True f w1 Inr by (subst genes_loop.simps) simp
      next
        case False
        have "fs (snd (genes_loop env pd i (Suc page) url' w1)) q = fs w1 q"
          using "1.IH"[OF True f[symmetric] Inr False "1.prems"] .
        then show ?thesis using True f w1 Inr False by (subst genes_loop.simps) simp
      qed
    qed
  qed
qed


lemma download_panel_genes_markers:
  "fs (snd (download_panel_genes env df panel w)) (version_file_of df j)
     = fs w (version_file_of df j)"
proof (cases "panel ''id''")
  case None
  then show ?thesis by (simp add: download_panel_genes_def)
next
  case (Some i)
  show ?thesis
  proof (cases "panel ''name''")
    case None
    then show ?thesis using Some by (simp add: download_panel_genes_def)
  next
    case name: (Some n)
    let ?w0 = "log_message (''Extracting genes for panel '' @ i @ '' ('' @ n @ '')...'') INFO w"
    let ?pd = "df @ [''panels'', i, ''genes'', ''json'']"
    show ?thesis
    proof (cases "mkdir ?pd ?w0")
      case (Inl e)
      then show ?thesis using Some name by (simp add: download_panel_genes_def)
    next
      case (Inr w1)
      have w1: "fs w1 (version_file_of df j) = fs w (version_file_of df j)"
        using mkdir_genes_marker[OF Inr, of j] by simp
      obtain r w2 where g: "genes_loop env ?pd i 1 (JStr (gene_url i)) w1 = (r, w2)"
        by (cases "genes_loop env ?pd i 1 (JStr (gene_url i)) w1")
      have "fs w2 (version_file_of df j) = fs w1 (version_file_of df j)"
        using genes_loop_fs[of "version_file_of df j" ?pd env i 1 "JStr (gene_url i)" w1] g
        by (simp add: version_file_of_def)
      then show ?thesis using Some name Inr g w1
        by (simp add: download_panel_genes_def split: sum.splits option.splits)
    qed
  qed
qed

lemma version_file_of_inj: "version_file_of df i = version_file_of df j \<longleftrightarrow> i = j"
  by (simp add: version_file_of_def)

text \<open>Writing the marker of a panel changes the version file of that panel only, and
  nothing at all when the panel has no id.\<close>

lemma update_panel_version_tracking_markers:
  assumes "panel ''id'' \<noteq> Some j"
  shows "fs (snd (update_panel_version_tracking df panel w)) (version_file_of df j)
     = fs w (version_file_of df j)"
proof (cases "panel ''id''")
  case None
  then show ?thesis by (simp add: update_panel_version_tracking_def)
next
  case (Some i)
  then have ij: "i \<noteq> j" using assms by simp
  show ?thesis
  proof (cases "panel ''version_created''")
    case None
    then show ?thesis using Some by (simp add: update_panel_version_tracking_def)
  next
    case vc: (Some v)
    show ?thesis
    proof (cases "mkdir (df @ [''panels'', i]) w")
      case (Inl e)
      then show ?thesis using Some vc by (simp add: update_panel_version_tracking_def)
    next
      case (Inr w1)
      have w1: "fs w1 (version_file_of df j) = fs w (version_file_of df j)"
        using mkdir_panel_marker[OF Inr, of j] .
      show ?thesis
      proof (cases "write_text (version_file_of df i) v w1")
        case wl: (Inl e)
        then show ?thesis using Some vc Inr w1 by (simp add: update_panel_version_tracking_def)
      next
        case wr: (Inr w2)
        have "fs w2 (version_file_of df j) = fs w1 (version_file_of df j)"
          using write_text_effect[OF wr] ij by (simp add: version_file_of_inj)
        then show ?thesis using Some vc Inr wr w1
          by (simp add: update_panel_version_tracking_def)
      qed
    qed
  qed
qed

lemma refresh_outcomes_subset: "(p, b) \<in> set (refresh_outcomes env df ps w) \<Longrightarrow> p \<in> set ps"
proof (induction ps arbitrary: w)
  case Nil
  then show ?case by simp
next
  case (Cons a ps)
  obtain r w1 where d: "download_panel_genes env df a w = (r, w1)"
    by (cases "download_panel_genes env df a w")
  show ?case
  proof (cases r)
    case (Inl e)
    then show ?thesis using Cons.prems d by simp
  next
    case (Inr result)
    show ?thesis
    proof (cases "success result")
      case False
      then show ?thesis using Cons.prems Cons.IH[of w1] d Inr by auto
    next
      case True
      obtain u w2 where up: "update_panel_version_tracking df a w1 = (u, w2)"
        by (cases "update_panel_version_tracking df a w1")
      show ?thesis using Cons.prems Cons.IH[of w2] d Inr True up
        by (cases u) auto
    qed
  qed
qed

text \<open>Over the whole loop: the version file of an id is what it was, unless the
  refresh of a panel with that id was seen to succeed.\<close>

lemma process_panels_markers:
  assumes "\<forall>p. (p, True) \<in> set (refresh_outcomes env df ps w) \<longrightarrow> p ''id'' \<noteq> Some j"
  shows "fs (snd (process_panels env df ps counts w)) (version_file_of df j)
     = fs w (version_file_of df j)"
  using assms
proof (induction ps arbitrary: w counts)
  case Nil
  then show ?case by simp
next
  case (Cons p ps)
  obtain r w1 where d: "download_panel_genes env df p w = (r, w1)"
    by (cases "download_panel_genes env df p w")
  have w1: "fs w1 (version_file_of df j) = fs w (version_file_of df j)"
    using download_panel_genes_markers[of env df p w j] d by simp
  show ?case
  proof (cases r)
    case (Inl e)
    then show ?thesis using d w1 by simp
  next
    case (Inr result)
    show ?thesis
    proof (cases "success result")
      case False
      have "\<forall>q. (q, True) \<in> set (refresh_outcomes env df ps w1) \<longrightarrow> q ''id'' \<noteq> Some j"
        using Cons.prems d Inr False by simp
      from Cons.IH[OF this] show ?thesis using d Inr False w1 by simp
    next
      case True
      have pj: "p ''id'' \<noteq> Some j" using Cons.prems d Inr True by simp
      obtain u w2 where up: "update_panel_version_tracking df p w1 = (u, w2)"
        by (cases "update_panel_version_tracking df p w1")
      have w2: "fs w2 (version_file_of df j) = fs w (version_file_of df j)"
        using update_panel_version_tracking_markers[where panel = p and j = j and df = df and w = w1]
          pj up w1 by simp
      show ?thesis
      proof (cases u)
        case (Inl e)
        then show ?thesis using d Inr True up w2 by simp
      next
        case ok: (Inr x)
        have "\<forall>q. (q, True) \<in> set (refresh_outcomes env df ps w2) \<longrightarrow> q ''id'' \<noteq> Some j"
          using Cons.prems d Inr True up ok by simp
        from Cons.IH[OF this] show ?thesis using d Inr True up ok w2 by simp
      qed
    qed
  qed
qed

text \<open>Nothing the loop does changes which paths the operating system refuses.\<close>

lemma fetch_genes_page_stat_error:
  "stat_error (snd (fetch_genes_page env pd i page url w)) = stat_error w"
proof -
  obtain r w2 where rg: "requests_get env url
      (log_message (''  Downloading genes page '' @ str_nat page @ '' for panel ''
                     @ i @ ''...'') INFO w) = (r, w2)"
    by (cases "requests_get env url (log_message (''  Downloading genes page '' @ str_nat page
          @ '' for panel '' @ i @ ''...'') INFO w)")
  have w2: "stat_error w2 = stat_error w" using requests_get_effect[OF rg] by simp
  show ?thesis using rg w2
    by (auto simp: fetch_genes_page_def split: sum.splits dest!: write_text_effect)
qed

lemma genes_loop_stat_error:
  "stat_error (snd (genes_loop env pd i page url w)) = stat_error w"
proof (induction env pd i page url w rule: genes_loop.induct)
  case (1 env pd i page url w)
  show ?case
  proof (cases "py_truthy url \<and> url \<noteq> JStr ''null''")
    case False
    then show ?thesis by (subst genes_loop.simps) auto
  next
    case True
    obtain r w1 where f: "fetch_genes_page env pd i page url w = (r, w1)"
      by (cases "fetch_genes_page env pd i page url w")
    have w1: "stat_error w1 = stat_error w"
      using fetch_genes_page_stat_error[of env pd i page url w] f by simp
    show ?thesis
    proof (cases r)
      case (Inl e)
      then show ?thesis using True f w1 by (subst genes_loop.simps) simp
    next
      case (Inr url')
      show ?thesis
      proof (cases "Suc page > 100")
        case limit: True
        then show ?thesis using True f w1 Inr by (subst genes_loop.simps) simp
      next
        case False
        have "stat_error (snd (genes_loop env pd i (Suc page) url' w1)) = stat_error w1"
          using "1.IH"[OF True f[symmetric] Inr False] .
        then show ?thesis using True f w1 Inr False by (subst genes_loop.simps) simp
      qed
    qed
  qed
qed

lemma download_panel_genes_stat_error:
  "stat_error (snd (download_panel_genes env df panel w)) = stat_error w"
proof (cases "panel ''id''")
  case None
  then show ?thesis by (simp add: download_panel_genes_def)
next
  case (Some i)
  show ?thesis
  proof (cases "panel ''name''")
    case None
    then show ?thesis using Some by (simp add: download_panel_genes_def)
  next
    case name: (Some n)
    let ?w0 = "log_message (''Extracting genes for panel '' @ i @ '' ('' @ n @ '')...'') INFO w"
    let ?pd = "df @ [''panels'', i, ''genes'', ''json'']"
    show ?thesis
    proof (cases "mkdir ?pd ?w0")
      case (Inl e)
      then show ?thesis using Some name by (simp add: download_panel_genes_def)
    next
      case (Inr w1)
      have w1: "stat_error w1 = stat_error w"
        using mkdir_sent[OF Inr] by simp
      obtain r w2 where g: "genes_loop env ?pd i 1 (JStr (gene_url i)) w1 = (r, w2)"
        by (cases "genes_loop env ?pd i 1 (JStr (gene_url i)) w1")
      have "stat_error w2 = stat_error w1"
        using genes_loop_stat_error[of env ?pd i 1 "JStr (gene_url i)" w1] g by simp
      then show ?thesis using Some name Inr g w1
        by (simp add: download_panel_genes_def split: sum.splits option.splits)
    qed
  qed
qed

lemma update_panel_version_tracking_stat_error:
  "stat_error (snd (update_panel_version_tracking df panel w)) = stat_error w"
  by (auto simp: update_panel_version_tracking_def split: option.splits sum.splits
      dest!: mkdir_sent write_text_effect)

lemma process_panels_stat_error:
  "stat_error (snd (process_panels env df ps counts w)) = stat_error w"
proof (induction ps arbitrary: w counts)
  case Nil
  then show ?case by simp
next
  case (Cons p ps)
  obtain r w1 where d: "download_panel_genes env df p w = (r, w1)"
    by (cases "download_panel_genes env df p w")
  have w1: "stat_error w1 = stat_error w"
    using download_panel_genes_stat_error[of env df p w] d by simp
  show ?case
  proof (cases r)
    case (Inl e)
    then show ?thesis using d w1 by simp
  next
    case (Inr result)
    show ?thesis
    proof (cases "success result")
      case False
      then show ?thesis using d Inr w1 Cons.IH[of "(fst counts, Suc (snd counts))" w1] by simp
    next
      case True
      obtain u w2 where up: "update_panel_version_tracking df p w1 = (u, w2)"
        by (cases "update_panel_version_tracking df p w1")
      have w2: "stat_error w2 = stat_error w"
        using update_panel_version_tracking_stat_error[of df p w1] up w1 by simp
      show ?thesis
      proof (cases u)
        case (Inl e)
        then show ?thesis using d Inr True up w2 by simp
      next
        case ok: (Inr x)
        then show ?thesis
          using d Inr True up w2 Cons.IH[of "(Suc (fst counts), snd counts)" w2] by simp
      qed
    qed
  qed
qed

lemma check_version_marker_cong:
  "fs w vf = fs w' vf \<Longrightarrow> stat_error w vf = stat_error w' vf \<Longrightarrow>
   map_sum id fst (check_version i c vf w) = map_sum id fst (check_version i c vf w')"
  by (auto simp: check_version_def read_version_file_def read_text_def
      split: sum.splits if_splits option.splits node.splits)

lemma panel_needs_update_marker_cong:
  assumes "p ''id'' = Some i" and "fs w (version_file_of df i) = fs w' (version_file_of df i)"
    and "stat_error w (version_file_of df i) = stat_error w' (version_file_of df i)"
  shows "fst (panel_needs_update p df force w) = fst (panel_needs_update p df force w')"
proof (cases "force \<or> p ''version_created'' = None")
  case True
  then show ?thesis using assms(1) by (auto simp: panel_needs_update_def)
next
  case False
  then obtain c where c: "p ''version_created'' = Some c" and nf: "\<not> force"
    by auto
  have ex: "path_exists w (version_file_of df i) = path_exists w' (version_file_of df i)"
    using assms(2,3) by (simp add: path_exists_def)
  have cv: "map_sum id fst (check_version i c (version_file_of df i) w)
          = map_sum id fst (check_version i c (version_file_of df i) w')"
    using assms(2,3) by (rule check_version_marker_cong)
  show ?thesis
  proof (cases "check_version i c (version_file_of df i) w")
    case (Inl e)
    then have "check_version i c (version_file_of df i) w' = Inl e"
      using cv by (cases "check_version i c (version_file_of df i) w'") auto
    then show ?thesis using Inl assms(1) c nf ex
      by (simp add: panel_needs_update_def split: sum.splits bool.splits)
  next
    case (Inr r)
    then obtain r' where r': "check_version i c (version_file_of df i) w' = Inr r'"
      "fst r' = fst r"
      using cv by (cases "check_version i c (version_file_of df i) w'") auto
    then show ?thesis using Inr assms(1) c nf ex
      by (cases r; cases r') (simp add: panel_needs_update_def split: sum.splits bool.splits)
  qed
qed

text \<open>
  Claim C4. Across the whole loop of \<open>main\<close> over the panels to update, the
  version file of an entity changes only if the refresh of a panel with that id was
  seen to succeed: \<open>update_panel_version_tracking\<close> runs after
  \<open>download_panel_genes\<close> has returned success, and nothing else touches a version
  file. When no refresh for the id succeeded, the version file (or its absence) is what
  it was before the pass, and the staleness check gives the same answer for the entity
  as before, so an entity that was stale is stale on the next pass.
\<close>

theorem marker_written_after_success:
  "(fs (snd (process_panels env data_folder panels counts w)) (version_file_of data_folder j)
        \<noteq> fs w (version_file_of data_folder j)
      \<longrightarrow> (\<exists>p. (p, True) \<in> set (refresh_outcomes env data_folder panels w) \<and> p ''id'' = Some j))
   \<and> ((\<forall>p. (p, True) \<in> set (refresh_outcomes env data_folder panels w) \<longrightarrow> p ''id'' \<noteq> Some j)
        \<and> e ''id'' = Some j
      \<longrightarrow> fs (snd (process_panels env data_folder panels counts w)) (version_file_of data_folder j)
            = fs w (version_file_of data_folder j)
          \<and> fst (panel_needs_update e data_folder False
                   (snd (process_panels env data_folder panels counts w)))
            = fst (panel_needs_update e data_folder False w))"
proof (intro conjI impI)
  assume "fs (snd (process_panels env data_folder panels counts w)) (version_file_of data_folder j)
        \<noteq> fs w (version_file_of data_folder j)"
  then show "\<exists>p. (p, True) \<in> set (refresh_outcomes env data_folder panels w) \<and> p ''id'' = Some j"
    using process_panels_markers[of env data_folder panels w j counts] by blast
next
  assume a: "(\<forall>p. (p, True) \<in> set (refresh_outcomes env data_folder panels w) \<longrightarrow> p ''id'' \<noteq> Some j)
        \<and> e ''id'' = Some j"
  then show same: "fs (snd (process_panels env data_folder panels counts w))
            (version_file_of data_folder j) = fs w (version_file_of data_folder j)"
    using process_panels_markers[of env data_folder panels w j counts] by blast
  show "fst (panel_needs_update e data_folder False
                   (snd (process_panels env data_folder panels counts w)))
            = fst (panel_needs_update e data_folder False w)"
    using a same process_panels_stat_error[of env data_folder panels counts w]
    by (intro panel_needs_update_marker_cong[where i = j]) simp_all
qed

lemmas step_eval = download_panel_genes_def genes_loop.simps fetch_genes_page_def requests_get_def
  mkdir_def write_text_def dict_get_def py_len_def py_truthy_def gene_url_def log_message_def
  str_error_def

lemma download_offline:
  "fst (download_panel_genes offline_env [''data''] panel_137 fresh_world)
     = Inr (Failed ''137'' ''RequestException'')"
  by (simp add: step_eval offline_env_def panel_137_def fresh_world_def)

lemma download_one_page_fst:
  "fst (download_panel_genes one_page_env [''data''] panel_137 fresh_world)
     = Inr (Downloaded ''137'' ''2024-03-01T00:00:00Z'' 1)"
  by (simp add: step_eval one_page_env_def panel_137_def fresh_world_def)

lemma str_nat_1: "str_nat (Suc 0) = ''1''"
  by (simp add: str_nat.simps digit_char_def char_of_def bit_simps)

lemma download_one_page_fs:
  "fs (snd (download_panel_genes one_page_env [''data''] panel_137 fresh_world))
     = [[''data''] \<mapsto> Dir, [''data'', ''panels''] \<mapsto> Dir, [''data'', ''panels'', ''137''] \<mapsto> Dir,
        [''data'', ''panels'', ''137'', ''genes''] \<mapsto> Dir,
        [''data'', ''panels'', ''137'', ''genes'', ''json''] \<mapsto> Dir,
        [''data'', ''panels'', ''137'', ''genes'', ''json'', ''genes_page_1.json''] \<mapsto> File ''{}'']"
  by (simp add: step_eval one_page_env_def panel_137_def fresh_world_def str_nat_1)


lemma process_offline:
  "refresh_outcomes offline_env [''data''] [panel_137] fresh_world = [(panel_137, False)]"
  using download_offline
  by (cases "download_panel_genes offline_env [''data''] panel_137 fresh_world")
     (simp add: success_def)

lemma process_one_page:
  "refresh_outcomes one_page_env [''data''] [panel_137] fresh_world = [(panel_137, True)]
   \<and> fs (snd (process_panels one_page_env [''data''] [panel_137] (0, 0) fresh_world))
       (version_file_of [''data''] ''137'') = Some (File ''2024-03-01T00:00:00Z'')"
proof -
  obtain r w1 where d: "download_panel_genes one_page_env [''data''] panel_137 fresh_world = (r, w1)"
    by (cases "download_panel_genes one_page_env [''data''] panel_137 fresh_world")
  have r: "r = Inr (Downloaded ''137'' ''2024-03-01T00:00:00Z'' 1)"
    using download_one_page_fst d by simp
  have w1: "fs w1 = [[''data''] \<mapsto> Dir, [''data'', ''panels''] \<mapsto> Dir,
        [''data'', ''panels'', ''137''] \<mapsto> Dir,
        [''data'', ''panels'', ''137'', ''genes''] \<mapsto> Dir,
        [''data'', ''panels'', ''137'', ''genes'', ''json''] \<mapsto> Dir,
        [''data'', ''panels'', ''137'', ''genes'', ''json'', ''genes_page_1.json''] \<mapsto> File ''{}'']"
    using download_one_page_fs d by simp
  obtain u w2 where up: "update_panel_version_tracking [''data''] panel_137 w1 = (u, w2)"
    by (cases "update_panel_version_tracking [''data''] panel_137 w1")
  have s1: "stat_error w1 = (\<lambda>p. False)"
    using download_panel_genes_stat_error[of one_page_env "[''data'']" panel_137 fresh_world] d
    by (simp add: fresh_world_def)
  have u: "u = Inr ()" and w2: "fs w2 (version_file_of [''data''] ''137'')
      = Some (File ''2024-03-01T00:00:00Z'')"
    using up w1 s1
    by (auto simp: update_panel_version_tracking_def panel_137_def mkdir_def write_text_def
        version_file_of_def log_message_def split: sum.splits)
  show ?thesis using d r up u w2 by (simp add: success_def)
qed

theorem marker_written_after_success_witness:
  "fs (snd (process_panels offline_env [''data''] [panel_137] (0, 0) fresh_world))
       (version_file_of [''data''] ''137'') = None
   \<and> fst (panel_needs_update panel_137 [''data''] False
           (snd (process_panels offline_env [''data''] [panel_137] (0, 0) fresh_world))) = Inr True
   \<and> (\<exists>p. (p, True) \<in> set (refresh_outcomes one_page_env [''data''] [panel_137] fresh_world)
          \<and> p ''id'' = Some ''137'')"
proof -
  have none: "fs fresh_world (version_file_of [''data''] ''137'') = None"
    by (simp add: fresh_world_def version_file_of_def)
  have stale: "fst (panel_needs_update panel_137 [''data''] False fresh_world) = Inr True"
    using fresh_world_no_marker
    by (simp add: panel_needs_update_def panel_137_id panel_137_version_created)
  have changed: "fs (snd (process_panels one_page_env [''data''] [panel_137] (0, 0) fresh_world))
       (version_file_of [''data''] ''137'') \<noteq> fs fresh_world (version_file_of [''data''] ''137'')"
    using process_one_page none by simp
  have hyp: "(\<forall>p. (p, True) \<in> set (refresh_outcomes offline_env [''data''] [panel_137] fresh_world)
                \<longrightarrow> p ''id'' \<noteq> Some ''137'')
             \<and> panel_137 ''id'' = Some ''137''"
    unfolding process_offline by (simp add: panel_137_id)
  note off = marker_written_after_success[of offline_env "[''data'']" "[panel_137]" "(0, 0)"
      fresh_world "''137''" panel_137, THEN conjunct2, THEN mp, OF hyp]
  note one = marker_written_after_success[of one_page_env "[''data'']" "[panel_137]" "(0, 0)"
      fresh_world "''137''" panel_137, THEN conjunct1, THEN mp, OF changed]
  show ?thesis
  proof (intro conjI)
    show "fs (snd (process_panels offline_env [''data''] [panel_137] (0, 0) fresh_world))
       (version_file_of [''data''] ''137'') = None"
      using off[THEN conjunct1] none by (rule trans)
    show "fst (panel_needs_update panel_137 [''data''] False
           (snd (process_panels offline_env [''data''] [panel_137] (0, 0) fresh_world))) = Inr True"
      using off[THEN conjunct2] stale by (rule trans)
    show "\<exists>p. (p, True) \<in> set (refresh_outcomes one_page_env [''data''] [panel_137] fresh_world)
          \<and> p ''id'' = Some ''137''"
      by (rule one)
  qed
qed

end
